theory Spec2Isabelle
  imports Main "HOL-Library.Sublist"
begin

section \<open>Python strings\<close>

text \<open>
  A Python \<open>str\<close> is a sequence of Unicode code points and \<open>len\<close> counts code points.
  A code point is modelled as a natural number, a string as a list of them.
\<close>

type_synonym pystr = "nat list"

definition ustr :: "string \<Rightarrow> pystr" where
  "ustr s = map of_char s"

text \<open>
  \<open>str.isspace\<close> on one code point, which is what \<open>str.strip()\<close> without an argument
  tests: the ASCII whitespace table of CPython and the code points of
  \<open>_PyUnicode_IsWhitespace\<close>.
\<close>

definition isspace :: "nat \<Rightarrow> bool" where
  "isspace c \<longleftrightarrow>
     (9 \<le> c \<and> c \<le> 13) \<or> (28 \<le> c \<and> c \<le> 32) \<or> c = 133 \<or> c = 160 \<or> c = 5760 \<or>
     (8192 \<le> c \<and> c \<le> 8202) \<or> c = 8232 \<or> c = 8233 \<or> c = 8239 \<or> c = 8287 \<or>
     c = 12288"

definition strip :: "pystr \<Rightarrow> pystr" where
  "strip s = rev (dropWhile isspace (rev (dropWhile isspace s)))"

text \<open>
  The slice \<open>s[i:j]\<close> with integer bounds and step 1: a negative bound counts from the
  end, and both bounds are clamped to the range of the string.
\<close>

definition slice_bound :: "int \<Rightarrow> int \<Rightarrow> int" where
  "slice_bound n i = (if i < 0 then max (i + n) 0 else min i n)"

definition py_slice :: "'a list \<Rightarrow> int \<Rightarrow> int \<Rightarrow> 'a list" where
  "py_slice xs i j =
     (let n = int (length xs); lo = slice_bound n i; hi = slice_bound n j
      in take (nat (hi - lo)) (drop (nat lo) xs))"

section \<open>DocumentChunker\<close>

definition CHUNK_SIZE_CHARS :: int where
  "CHUNK_SIZE_CHARS = 2000"

definition CHUNK_OVERLAP_CHARS :: int where
  "CHUNK_OVERLAP_CHARS = 200"

record chunk =
  text' :: pystr
  source :: pystr
  chunk_index :: int
  char_start :: int
  char_end :: int

text \<open>
  The \<open>while\<close> loop of \<open>DocumentChunker.chunk_text\<close>, with the loop variables
  \<open>chunks\<close>, \<open>start\<close> and \<open>chunk_idx\<close> as arguments. Nothing in the source checks
  \<open>chunk_size\<close> and \<open>overlap\<close>, so the loop need not end: not returning is \<open>None\<close>.
\<close>

partial_function (option) chunk_loop ::
  "int \<Rightarrow> int \<Rightarrow> pystr \<Rightarrow> pystr \<Rightarrow> chunk list \<Rightarrow> int \<Rightarrow> int \<Rightarrow> chunk list option" where
  "chunk_loop chunk_size overlap txt src chunks start chunk_idx =
     (if start < int (length txt) then
        (if length (strip (py_slice txt start (start + chunk_size))) < 100 then Some chunks
         else chunk_loop chunk_size overlap txt src
                (chunks @ [\<lparr>text' = strip (py_slice txt start (start + chunk_size)),
                            source = src,
                            chunk_index = chunk_idx,
                            char_start = start,
                            char_end = start + chunk_size\<rparr>])
                (start + (chunk_size - overlap)) (chunk_idx + 1))
      else Some chunks)"

declare chunk_loop.simps [code]

definition chunk_text :: "int \<Rightarrow> int \<Rightarrow> pystr \<Rightarrow> pystr \<Rightarrow> chunk list option" where
  "chunk_text chunk_size overlap txt src = chunk_loop chunk_size overlap txt src [] 0 0"

text \<open>
  The dictionary that the loop appends for the window starting at \<open>s\<close> with index \<open>k\<close>,
  and the chunks of \<open>n\<close> successive windows.
\<close>

definition window :: "int \<Rightarrow> pystr \<Rightarrow> pystr \<Rightarrow> int \<Rightarrow> int \<Rightarrow> chunk" where
  "window chunk_size txt src s k =
     \<lparr>text' = strip (py_slice txt s (s + chunk_size)), source = src, chunk_index = k,
      char_start = s, char_end = s + chunk_size\<rparr>"

definition emitted :: "int \<Rightarrow> int \<Rightarrow> pystr \<Rightarrow> pystr \<Rightarrow> int \<Rightarrow> int \<Rightarrow> nat \<Rightarrow> chunk list" where
  "emitted chunk_size overlap txt src start idx n =
     map (\<lambda>i. window chunk_size txt src (start + int i * (chunk_size - overlap)) (idx + int i))
       [0..<n]"

definition kept :: "int \<Rightarrow> pystr \<Rightarrow> int \<Rightarrow> bool" where
  "kept chunk_size txt s \<longleftrightarrow>
     s < int (length txt) \<and> 100 \<le> length (strip (py_slice txt s (s + chunk_size)))"

section \<open>Exceptions\<close>

text \<open>
  A raised Python exception. The handlers of this module are all \<open>except Exception\<close> and
  use nothing of the exception but \<open>str(e)\<close>, so an exception is its message.
\<close>

datatype exn = Exception pystr

fun str_exn :: "exn \<Rightarrow> pystr" where
  "str_exn (Exception m) = m"

section \<open>EmbeddingGenerator\<close>

definition EMBEDDING_MODEL :: pystr where
  "EMBEDDING_MODEL = ustr ''gemini-embedding-001''"

definition EMBEDDING_DIMENSION :: int where
  "EMBEDDING_DIMENSION = 768"

definition TASK_TYPE_DOCUMENT :: pystr where
  "TASK_TYPE_DOCUMENT = ustr ''RETRIEVAL_DOCUMENT''"

definition TASK_TYPE_QUERY :: pystr where
  "TASK_TYPE_QUERY = ustr ''RETRIEVAL_QUERY''"

text \<open>
  The embedding service \<open>genai.embed_content(model, content, task_type,
  output_dimensionality)\<close> is external: a parameter of the model, which either raises or
  returns a dictionary. The vectors are values of a type \<open>'v\<close> that the code only passes on.
\<close>

type_synonym 'v embed_service = "pystr \<Rightarrow> pystr \<Rightarrow> pystr \<Rightarrow> int \<Rightarrow> exn + (pystr \<rightharpoonup> 'v)"

record embedding_generator =
  model :: pystr
  dimension :: int

definition EmbeddingGenerator :: embedding_generator where
  "EmbeddingGenerator = \<lparr>model = EMBEDDING_MODEL, dimension = EMBEDDING_DIMENSION\<rparr>"

text \<open>\<open>result['embedding']\<close> raises \<open>KeyError\<close> when the key is missing.\<close>

definition generate_embedding ::
  "'v embed_service \<Rightarrow> embedding_generator \<Rightarrow> pystr \<Rightarrow> pystr \<Rightarrow> exn + 'v" where
  "generate_embedding embed_content self txt task_type =
     (case embed_content (model self) txt task_type (dimension self) of
        Inl e \<Rightarrow> Inl e
      | Inr result \<Rightarrow>
          (case result (ustr ''embedding'') of
             None \<Rightarrow> Inl (Exception (39 # ustr ''embedding'' @ [39]))
           | Some v \<Rightarrow> Inr v))"

text \<open>The \<open>for\<close> loop of \<open>generate_batch_embeddings\<close>, with the list \<open>embeddings\<close> it grows.\<close>

fun batch_loop ::
  "'v embed_service \<Rightarrow> embedding_generator \<Rightarrow> pystr \<Rightarrow> pystr list \<Rightarrow> 'v list \<Rightarrow> exn + 'v list" where
  "batch_loop embed_content self task_type [] embeddings = Inr embeddings"
| "batch_loop embed_content self task_type (t # texts) embeddings =
     (case generate_embedding embed_content self t task_type of
        Inl e \<Rightarrow> Inl e
      | Inr v \<Rightarrow> batch_loop embed_content self task_type texts (embeddings @ [v]))"

definition generate_batch_embeddings ::
  "'v embed_service \<Rightarrow> embedding_generator \<Rightarrow> pystr list \<Rightarrow> pystr \<Rightarrow> exn + 'v list" where
  "generate_batch_embeddings embed_content self texts task_type =
     batch_loop embed_content self task_type texts []"

text \<open>
  The specification's wording of the batch operation: repeated single calls, one vector per
  input text, in input order. The first call that fails is the failure of the whole.
\<close>

fun collect_results :: "(exn + 'a) list \<Rightarrow> exn + 'a list" where
  "collect_results [] = Inr []"
| "collect_results (r # rs) =
     (case r of
        Inl e \<Rightarrow> Inl e
      | Inr v \<Rightarrow> (case collect_results rs of Inl e \<Rightarrow> Inl e | Inr vs \<Rightarrow> Inr (v # vs)))"

definition embed_batch_spec ::
  "'v embed_service \<Rightarrow> embedding_generator \<Rightarrow> pystr list \<Rightarrow> pystr \<Rightarrow> exn + 'v list" where
  "embed_batch_spec embed_content self texts task_type =
     collect_results (map (\<lambda>t. generate_embedding embed_content self t task_type) texts)"

section \<open>The vector store\<close>

text \<open>A row of the table \<open>documents\<close>: the fields of a chunk and its embedding.\<close>

record 'v row = chunk +
  vector :: 'v

text \<open>
  The state of the store at \<open>KNOWLEDGE_DB_PATH\<close>: the directory does not exist, or it exists
  without a table \<open>documents\<close>, or the table holds a list of rows.
\<close>

datatype 'v store = Missing | NoTable | Table "'v row list"

datatype store_op = Connect | OpenTable | Add | CreateTable | Search | ToPandas

text \<open>
  What is outside the module: the file system of the documents, the converter, the embedding
  service, the similarity search of the store, and the failures of the storage calls. They
  are parameters. \<open>fault op = Some e\<close> says that the storage call \<open>op\<close> raises \<open>e\<close>.
\<close>

record 'v env =
  path_exists :: "pystr \<Rightarrow> bool"
  path_absolute :: "pystr \<Rightarrow> pystr"
  path_name :: "pystr \<Rightarrow> pystr"
  convert :: "pystr \<Rightarrow> exn + pystr"
  embed_content :: "'v embed_service"
  vector_search :: "'v row list \<Rightarrow> 'v \<Rightarrow> int \<Rightarrow> exn + 'v row list"
  fault :: "store_op \<Rightarrow> exn option"

text \<open>
  Modelled from the spec: the storage engine (LanceDB) is not part of the repository. Its
  calls follow sections 4.3 and 6 of the specification: opening a location never fails for
  want of prior data, the first write materialises the storage, creating the collection
  from a first batch is appending to an empty collection, and \<open>add\<close> appends. Opening a
  table that does not exist and creating one that exists raise. A call that raises leaves
  the store as it was.
\<close>

definition connect :: "'v env \<Rightarrow> exn + unit" where
  "connect env = (case fault env Connect of Some e \<Rightarrow> Inl e | None \<Rightarrow> Inr ())"

definition open_table :: "'v env \<Rightarrow> 'v store \<Rightarrow> exn + 'v row list" where
  "open_table env kb =
     (case fault env OpenTable of
        Some e \<Rightarrow> Inl e
      | None \<Rightarrow>
          (case kb of
             Table rows \<Rightarrow> Inr rows
           | _ \<Rightarrow> Inl (Exception (ustr ''Table documents was not found''))))"

definition table_add :: "'v env \<Rightarrow> 'v store \<Rightarrow> 'v row list \<Rightarrow> (exn + unit) \<times> 'v store" where
  "table_add env kb data =
     (case fault env Add of
        Some e \<Rightarrow> (Inl e, kb)
      | None \<Rightarrow>
          (case kb of
             Table rows \<Rightarrow> (Inr (), Table (rows @ data))
           | _ \<Rightarrow> (Inl (Exception (ustr ''Table documents was not found'')), kb)))"

definition create_table :: "'v env \<Rightarrow> 'v store \<Rightarrow> 'v row list \<Rightarrow> (exn + unit) \<times> 'v store" where
  "create_table env kb data =
     (case fault env CreateTable of
        Some e \<Rightarrow> (Inl e, kb)
      | None \<Rightarrow>
          (case kb of
             Table rows \<Rightarrow> (Inl (Exception (ustr ''Table documents already exists'')), kb)
           | _ \<Rightarrow> (Inr (), Table data)))"

definition table_search :: "'v env \<Rightarrow> 'v row list \<Rightarrow> 'v \<Rightarrow> int \<Rightarrow> exn + 'v row list" where
  "table_search env rows q k =
     (case fault env Search of Some e \<Rightarrow> Inl e | None \<Rightarrow> vector_search env rows q k)"

definition to_pandas :: "'v env \<Rightarrow> 'v row list \<Rightarrow> exn + 'v row list" where
  "to_pandas env rows = (case fault env ToPandas of Some e \<Rightarrow> Inl e | None \<Rightarrow> Inr rows)"

section \<open>Formatting\<close>

fun digits :: "nat \<Rightarrow> pystr" where
  "digits n = (if n < 10 then [48 + n] else digits (n div 10) @ [48 + n mod 10])"

declare digits.simps [simp del]

definition str_int :: "int \<Rightarrow> pystr" where
  "str_int i = (if i < 0 then 45 # digits (nat (- i)) else digits (nat i))"

fun join :: "pystr \<Rightarrow> pystr list \<Rightarrow> pystr" where
  "join sep [] = []"
| "join sep [x] = x"
| "join sep (x # y # ys) = x @ sep @ join sep (y # ys)"

text \<open>\<open>Series.unique()\<close>: the distinct values in order of first appearance.\<close>

fun unique :: "'a list \<Rightarrow> 'a list" where
  "unique [] = []"
| "unique (x # xs) = x # unique (filter (\<lambda>y. y \<noteq> x) xs)"

section \<open>index\_document\<close>

text \<open>The rows built from \<open>zip(chunks, embeddings)\<close>.\<close>

definition data_for_db :: "chunk list \<Rightarrow> 'v list \<Rightarrow> 'v row list" where
  "data_for_db chunks embeddings =
     map (\<lambda>(c, embedding).
            \<lparr>text' = text' c, source = source c, chunk_index = chunk_index c,
             char_start = char_start c, char_end = char_end c, vector = embedding\<rparr>)
       (zip chunks embeddings)"

text \<open>
  The storage step: \<open>open_table\<close> then \<open>add\<close> inside the inner \<open>try\<close>; on any exception
  of the two, \<open>create_table\<close>.
\<close>

definition store_rows :: "'v env \<Rightarrow> 'v store \<Rightarrow> 'v row list \<Rightarrow> (exn + unit) \<times> 'v store" where
  "store_rows env kb data =
     (case connect env of
        Inl e \<Rightarrow> (Inl e, kb)
      | Inr _ \<Rightarrow>
          (case (case open_table env kb of
                   Inl e \<Rightarrow> (Inl e, kb)
                 | Inr table \<Rightarrow> table_add env kb data) of
             (Inr _, kb') \<Rightarrow> (Inr (), kb')
           | (Inl _, kb') \<Rightarrow> create_table env kb' data))"

text \<open>
  The body of the outer \<open>try\<close> of \<open>index_document\<close>. A returned string is \<open>Inr\<close>, a raised
  exception \<open>Inl\<close>; with them comes the store after the call. \<open>None\<close> is a chunking loop
  that does not return.
\<close>

definition index_document_body ::
  "'v env \<Rightarrow> pystr \<Rightarrow> 'v store \<Rightarrow> ((exn + pystr) \<times> 'v store) option" where
  "index_document_body env file_path kb =
     (if \<not> path_exists env file_path then
        Some (Inr (ustr ''Error: File '' @ file_path @ ustr '' does not exist''), kb)
      else
        (case convert env (path_absolute env file_path) of
           Inl e \<Rightarrow> Some (Inl e, kb)
         | Inr text_content \<Rightarrow>
             if text_content = [] \<or> length (strip text_content) < 50 then
               Some (Inr (ustr ''Error: Could not extract meaningful text from '' @ file_path), kb)
             else
               (case chunk_text CHUNK_SIZE_CHARS CHUNK_OVERLAP_CHARS text_content
                       (path_absolute env file_path) of
                  None \<Rightarrow> None
                | Some chunks \<Rightarrow>
                    if chunks = [] then
                      Some (Inr (ustr ''Error: No chunks created from '' @ file_path), kb)
                    else
                      (case generate_batch_embeddings (embed_content env) EmbeddingGenerator
                              (map text' chunks) TASK_TYPE_DOCUMENT of
                         Inl e \<Rightarrow> Some (Inl e, kb)
                       | Inr embeddings \<Rightarrow>
                           (case store_rows env kb (data_for_db chunks embeddings) of
                              (Inl e, kb') \<Rightarrow> Some (Inl e, kb')
                            | (Inr _, kb') \<Rightarrow>
                                Some (Inr (ustr ''Successfully indexed '' @ path_name env file_path
                                            @ ustr '': '' @ str_int (int (length chunks))
                                            @ ustr '' chunks created and embedded''), kb'))))))"

text \<open>\<open>except Exception as e: return f"Error indexing document: {str(e)}"\<close>\<close>

definition index_document ::
  "'v env \<Rightarrow> pystr \<Rightarrow> 'v store \<Rightarrow> ((exn + pystr) \<times> 'v store) option" where
  "index_document env file_path kb =
     (case index_document_body env file_path kb of
        None \<Rightarrow> None
      | Some (Inl e, kb') \<Rightarrow> Some (Inr (ustr ''Error indexing document: '' @ str_exn e), kb')
      | Some (Inr s, kb') \<Rightarrow> Some (Inr s, kb'))"

section \<open>search\_knowledge\_base\<close>

text \<open>The loop over \<open>enumerate(results, 1)\<close>; it returns what it appends to \<open>output\<close>.\<close>

fun format_results :: "'v env \<Rightarrow> int \<Rightarrow> 'v row list \<Rightarrow> pystr list" where
  "format_results env i [] = []"
| "format_results env i (result # results) =
     ([10] @ ustr ''--- Result '' @ str_int i @ ustr '' (from '' @ path_name env (source result)
        @ ustr '', chunk '' @ str_int (chunk_index result) @ ustr '') ---'')
     # take 500 (text' result)
     # (if length (text' result) > 500 then [ustr ''... (truncated)''] else [])
     @ format_results env (i + 1) results"

definition search_knowledge_base_body ::
  "'v env \<Rightarrow> pystr \<Rightarrow> int \<Rightarrow> 'v store \<Rightarrow> exn + pystr" where
  "search_knowledge_base_body env query num_results kb =
     (if kb = Missing then
        Inr (ustr ''Knowledge base not found. Please index some documents first using the index_document tool.'')
      else
        (case generate_embedding (embed_content env) EmbeddingGenerator query TASK_TYPE_QUERY of
           Inl e \<Rightarrow> Inl e
         | Inr query_embedding \<Rightarrow>
             (case connect env of
                Inl e \<Rightarrow> Inl e
              | Inr _ \<Rightarrow>
                  (case open_table env kb of
                     Inl _ \<Rightarrow>
                       Inr (ustr ''No documents have been indexed yet. Use index_document first.'')
                   | Inr table \<Rightarrow>
                       (case table_search env table query_embedding num_results of
                          Inl e \<Rightarrow> Inl e
                        | Inr results \<Rightarrow>
                            if results = [] then
                              Inr (ustr ''No relevant information found for query: '' @ [39] @ query
                                     @ [39])
                            else
                              Inr (join [10]
                                     ((ustr ''Found '' @ str_int (int (length results))
                                         @ ustr '' relevant chunks for '' @ [39] @ query @ [39]
                                         @ ustr '':'' @ [10])
                                      # format_results env 1 results)))))))"

definition search_knowledge_base :: "'v env \<Rightarrow> pystr \<Rightarrow> int \<Rightarrow> 'v store \<Rightarrow> exn + pystr" where
  "search_knowledge_base env query num_results kb =
     (case search_knowledge_base_body env query num_results kb of
        Inl e \<Rightarrow> Inr (ustr ''Error searching knowledge base: '' @ str_exn e)
      | Inr s \<Rightarrow> Inr s)"

section \<open>get\_indexed\_documents\<close>

text \<open>\<open>all_data[all_data['source'] == source]\<close>, the rows of one source.\<close>

definition doc_chunks :: "'v row list \<Rightarrow> pystr \<Rightarrow> 'v row list" where
  "doc_chunks all_data src = filter (\<lambda>r. source r = src) all_data"

definition summary_lines :: "'v env \<Rightarrow> 'v row list \<Rightarrow> pystr list" where
  "summary_lines env all_data =
     [ustr ''Knowledge Base Statistics:'',
      ustr ''- Total chunks: '' @ str_int (int (length all_data)),
      ustr ''- Indexed documents: '' @ str_int (int (length (unique (map source all_data)))),
      [10] @ ustr ''Documents:'']
     @ map (\<lambda>src. ustr ''  '' @ [8226] @ ustr '' '' @ path_name env src @ ustr '' (''
                    @ str_int (int (length (doc_chunks all_data src))) @ ustr '' chunks)'')
         (unique (map source all_data))"

definition get_indexed_documents_body :: "'v env \<Rightarrow> 'v store \<Rightarrow> exn + pystr" where
  "get_indexed_documents_body env kb =
     (if kb = Missing then Inr (ustr ''Knowledge base is empty (no documents indexed yet)'')
      else
        (case connect env of
           Inl e \<Rightarrow> Inl e
         | Inr _ \<Rightarrow>
             (case (case open_table env kb of
                      Inl e \<Rightarrow> Inl e
                    | Inr table \<Rightarrow>
                        (case to_pandas env table of
                           Inl e \<Rightarrow> Inl e
                         | Inr all_data \<Rightarrow> Inr (join [10] (summary_lines env all_data)))) of
                Inl _ \<Rightarrow> Inr (ustr ''Knowledge base is empty (no documents indexed yet)'')
              | Inr s \<Rightarrow> Inr s)))"

definition get_indexed_documents :: "'v env \<Rightarrow> 'v store \<Rightarrow> exn + pystr" where
  "get_indexed_documents env kb =
     (case get_indexed_documents_body env kb of
        Inl e \<Rightarrow> Inr (ustr ''Error accessing knowledge base: '' @ str_exn e)
      | Inr s \<Rightarrow> Inr s)"

text \<open>A result string that reports an error starts with \<open>Error\<close>.\<close>

definition is_error_result :: "pystr \<Rightarrow> bool" where
  "is_error_result s \<longleftrightarrow> take 5 s = ustr ''Error''"

text \<open>The status string of an ingestion that reached its end.\<close>

definition ingest_ok :: "pystr \<Rightarrow> bool" where
  "ingest_ok s \<longleftrightarrow> take 21 s = ustr ''Successfully indexed ''"

text \<open>The rows held by a store; none when there is no table.\<close>

definition rows_of :: "'v store \<Rightarrow> 'v row list" where
  "rows_of kb = (case kb of Table rows \<Rightarrow> rows | _ \<Rightarrow> [])"

section \<open>An example environment\<close>

text \<open>
  One concrete choice of the external parameters, for evaluating the operations: a single
  document of 2000 letters at \<open>/docs/a.txt\<close>, an embedding service that fails on the empty
  text and otherwise returns the length of the text as its vector, a search that returns
  the first \<open>k\<close> rows, and storage calls that do not fail.
\<close>

definition example_service :: "nat embed_service" where
  "example_service =
     (\<lambda>m c t d. if c = [] then Inl (Exception (ustr ''empty content''))
                else Inr [ustr ''embedding'' \<mapsto> length c])"

definition example_env :: "nat env" where
  "example_env =
     \<lparr>path_exists = (\<lambda>p. p = ustr ''/docs/a.txt''),
      path_absolute = (\<lambda>p. p),
      path_name = (\<lambda>p. ustr ''a.txt''),
      convert = (\<lambda>p. Inr (replicate 2000 97)),
      embed_content = example_service,
      vector_search = (\<lambda>rows q k. Inr (take (nat k) rows)),
      fault = (\<lambda>op. None)\<rparr>"

text \<open>The rows that ingesting the example document writes.\<close>

definition example_rows :: "nat row list" where
  "example_rows =
     [\<lparr>text' = replicate 2000 97, source = ustr ''/docs/a.txt'', chunk_index = 0,
       char_start = 0, char_end = 2000, vector = 2000\<rparr>,
      \<lparr>text' = replicate 200 97, source = ustr ''/docs/a.txt'', chunk_index = 1,
       char_start = 1800, char_end = 3800, vector = 200\<rparr>]"

section \<open>The chunking loop\<close>

lemma emitted_0: "emitted cs ov txt src start idx 0 = []"
  by (simp add: emitted_def)

lemma emitted_Suc_front:
  "emitted cs ov txt src start idx (Suc n) =
     window cs txt src start idx # emitted cs ov txt src (start + (cs - ov)) (idx + 1) n"
proof -
  have "[0..<Suc n] = 0 # map Suc [0..<n]"
    by (simp add: upt_conv_Cons map_Suc_upt del: upt_Suc)
  then have "emitted cs ov txt src start idx (Suc n) =
     map (\<lambda>i. window cs txt src (start + int i * (cs - ov)) (idx + int i)) (0 # map Suc [0..<n])"
    unfolding emitted_def by (rule arg_cong)
  also have "\<dots> = window cs txt src start idx # emitted cs ov txt src (start + (cs - ov)) (idx + 1) n"
    unfolding emitted_def by (simp add: o_def algebra_simps)
  finally show ?thesis .
qed

lemma chunk_loop_shape:
  assumes "chunk_loop cs ov txt src chunks start idx = Some r"
  shows "\<exists>n. r = chunks @ emitted cs ov txt src start idx n \<and>
             (\<forall>i<n. kept cs txt (start + int i * (cs - ov))) \<and>
             \<not> kept cs txt (start + int n * (cs - ov))"
proof -
  define P where "P = (\<lambda>cs ov txt src chunks start idx r.
      \<exists>n. r = chunks @ emitted cs ov txt src start idx n \<and>
             (\<forall>i<n. kept cs txt (start + int i * (cs - ov))) \<and>
             \<not> kept cs txt (start + int n * (cs - ov)))"
  have "P cs ov txt src chunks start idx r"
  proof (rule chunk_loop.raw_induct[where P = P, OF _ assms])
    fix loop cs ov tx src chunks start idx r
    assume IH: "\<And>cs ov tx src chunks start idx r.
                  loop cs ov tx src chunks start idx = Some r \<Longrightarrow>
                  P cs ov tx src chunks start idx r"
      and body: "(if start < int (length tx) then
        (if length (strip (py_slice tx start (start + cs))) < 100 then Some chunks
         else loop cs ov tx src
                (chunks @ [\<lparr>text' = strip (py_slice tx start (start + cs)),
                            source = src,
                            chunk_index = idx,
                            char_start = start,
                            char_end = start + cs\<rparr>])
                (start + (cs - ov)) (idx + 1))
      else Some chunks) = Some r"
    show "P cs ov tx src chunks start idx r"
    proof (cases "kept cs tx start")
      case False
      with body have "r = chunks"
        by (auto simp: kept_def split: if_splits)
      with False show ?thesis
        unfolding P_def by (intro exI[of _ 0]) (simp add: emitted_0)
    next
      case True
      with body have "loop cs ov tx src (chunks @ [window cs tx src start idx])
                        (start + (cs - ov)) (idx + 1) = Some r"
        by (auto simp: kept_def window_def split: if_splits)
      from IH[OF this] obtain n where
        r: "r = (chunks @ [window cs tx src start idx]) @
                  emitted cs ov tx src (start + (cs - ov)) (idx + 1) n"
        and k: "\<forall>i<n. kept cs tx (start + (cs - ov) + int i * (cs - ov))"
        and s: "\<not> kept cs tx (start + (cs - ov) + int n * (cs - ov))"
        unfolding P_def by (elim exE conjE)
      have "r = chunks @ emitted cs ov tx src start idx (Suc n)"
        using r by (simp add: emitted_Suc_front)
      moreover have "\<forall>i<Suc n. kept cs tx (start + int i * (cs - ov))"
      proof (intro allI impI)
        fix i assume "i < Suc n"
        show "kept cs tx (start + int i * (cs - ov))"
        proof (cases i)
          case 0 with True show ?thesis by simp
        next
          case (Suc j)
          with \<open>i < Suc n\<close> k have "kept cs tx (start + (cs - ov) + int j * (cs - ov))" by simp
          then show ?thesis using Suc by (simp add: algebra_simps)
        qed
      qed
      moreover have "\<not> kept cs tx (start + int (Suc n) * (cs - ov))"
        using s by (simp add: algebra_simps)
      ultimately show ?thesis
        unfolding P_def by (intro exI[of _ "Suc n"] conjI)
    qed
  qed
  then show ?thesis unfolding P_def .
qed

lemma chunk_loop_terminates:
  assumes "0 < cs - ov"
  shows "\<exists>r. chunk_loop cs ov txt src chunks start idx = Some r"
proof (induction "nat (int (length txt) - start)" arbitrary: chunks start idx rule: less_induct)
  case less
  show ?case
  proof (cases "kept cs txt start")
    case False
    then show ?thesis
      by (subst chunk_loop.simps) (auto simp: kept_def)
  next
    case True
    then have "nat (int (length txt) - (start + (cs - ov))) < nat (int (length txt) - start)"
      using assms by (simp add: kept_def)
    from less[OF this] obtain r where
      "chunk_loop cs ov txt src (chunks @ [window cs txt src start idx])
         (start + (cs - ov)) (idx + 1) = Some r"
      by blast
    with True show ?thesis
      by (subst chunk_loop.simps) (auto simp: kept_def window_def)
  qed
qed

lemma length_emitted: "length (emitted cs ov txt src start idx n) = n"
  by (simp add: emitted_def)

lemma nth_emitted:
  "i < n \<Longrightarrow> emitted cs ov txt src start idx n ! i =
      window cs txt src (start + int i * (cs - ov)) (idx + int i)"
  by (simp add: emitted_def)

lemma chunk_text_shape:
  assumes "chunk_text cs ov txt src = Some r"
  shows "\<exists>n. r = emitted cs ov txt src 0 0 n \<and>
             (\<forall>i<n. kept cs txt (int i * (cs - ov))) \<and>
             \<not> kept cs txt (int n * (cs - ov))"
  using chunk_loop_shape[of cs ov "txt" src "[]" 0 0 r] assms
  by (simp add: chunk_text_def)

lemma chunk_text_terminates:
  "0 < cs - ov \<Longrightarrow> \<exists>r. chunk_text cs ov txt src = Some r"
  unfolding chunk_text_def by (rule chunk_loop_terminates)

text \<open>
  Without the precondition the loop need not end: when \<open>overlap = chunk_size\<close> the start
  offset never moves, and a first window that is kept is appended again and again.
\<close>

lemma chunk_loop_no_progress:
  assumes "chunk_loop cs ov t src chunks start idx = Some r"
  shows "\<not> (ov = cs \<and> kept cs t start)"
proof -
  define P where "P = (\<lambda>(cs::int) (ov::int) (t::pystr) (src::pystr) (chunks::chunk list)
                         (start::int) (idx::int) (r::chunk list). \<not> (ov = cs \<and> kept cs t start))"
  have "P cs ov t src chunks start idx r"
  proof (rule chunk_loop.raw_induct[where P = P, OF _ assms])
    fix loop cs ov tx src chunks start idx r
    assume IH: "\<And>cs ov tx src chunks start idx r.
                  loop cs ov tx src chunks start idx = Some r \<Longrightarrow>
                  P cs ov tx src chunks start idx r"
      and body: "(if start < int (length tx) then
        (if length (strip (py_slice tx start (start + cs))) < 100 then Some chunks
         else loop cs ov tx src
                (chunks @ [\<lparr>text' = strip (py_slice tx start (start + cs)),
                            source = src,
                            chunk_index = idx,
                            char_start = start,
                            char_end = start + cs\<rparr>])
                (start + (cs - ov)) (idx + 1))
      else Some chunks) = Some r"
    show "P cs ov tx src chunks start idx r"
      unfolding P_def
    proof
      assume a: "ov = cs \<and> kept cs tx start"
      with body have "loop cs ov tx src (chunks @ [window cs tx src start idx])
                        start (idx + 1) = Some r"
        by (auto simp: kept_def window_def split: if_splits)
      from IH[OF this] a show False by (simp add: P_def)
    qed
  qed
  then show ?thesis by (simp add: P_def)
qed

lemma chunk_text_diverges:
  assumes "overlap = chunk_size" and "kept chunk_size t 0"
  shows "chunk_text chunk_size overlap t src = None"
proof (cases "chunk_text chunk_size overlap t src")
  case None
  then show ?thesis .
next
  case (Some r)
  then have "chunk_loop chunk_size overlap t src [] 0 0 = Some r" by (simp add: chunk_text_def)
  from chunk_loop_no_progress[OF this] assms show ?thesis by simp
qed

lemma window_sel:
  "char_start (window cs t src s k) = s"
  "char_end (window cs t src s k) = s + cs"
  "chunk_index (window cs t src s k) = k"
  "source (window cs t src s k) = src"
  "text' (window cs t src s k) = strip (py_slice t s (s + cs))"
  by (simp_all add: window_def)

lemma sorted_wrt_emitted_index:
  "sorted_wrt (<) (map chunk_index (emitted cs ov t src start idx n))"
  by (simp add: sorted_wrt_iff_nth_less length_emitted nth_emitted window_sel)

lemma sorted_wrt_emitted_start:
  assumes "0 < cs - ov"
  shows "sorted_wrt (<) (map char_start (emitted cs ov t src start idx n))"
  using assms
  by (simp add: sorted_wrt_iff_nth_less length_emitted nth_emitted window_sel)

lemma kept_start_less: "kept cs t s \<Longrightarrow> s < int (length t)"
  by (simp add: kept_def)

lemma emitted_count_bound:
  assumes "0 < step" and "\<forall>i<n. kept cs t (int i * step)"
  shows "int n * step < int (length t) + step"
proof (cases n)
  case 0
  with assms(1) show ?thesis by simp
next
  case (Suc m)
  with assms(2) have "kept cs t (int m * step)" by simp
  then have "int m * step < int (length t)" by (rule kept_start_less)
  with Suc show ?thesis by (simp add: algebra_simps)
qed

lemma dropWhile_none: "\<forall>x\<in>set xs. \<not> P x \<Longrightarrow> dropWhile P xs = xs"
  by (cases xs) simp_all

lemma strip_no_space: "\<forall>c\<in>set s. \<not> isspace c \<Longrightarrow> strip s = s"
  by (simp add: strip_def dropWhile_none)

lemma set_py_slice: "set (py_slice xs i j) \<subseteq> set xs"
proof -
  have "set (py_slice xs i j) \<subseteq> set (drop (nat (slice_bound (int (length xs)) i)) xs)"
    unfolding py_slice_def Let_def by (rule set_take_subset)
  also have "\<dots> \<subseteq> set xs" by (rule set_drop_subset)
  finally show ?thesis .
qed

lemma length_py_slice:
  assumes "0 \<le> s" and "0 \<le> w"
  shows "int (length (py_slice xs s (s + w))) = min (s + w) (int (length xs)) - min s (int (length xs))"
  using assms by (auto simp: py_slice_def slice_bound_def Let_def min_def)

lemma kept_no_space:
  assumes "\<forall>c\<in>set t. \<not> isspace c" and "0 \<le> s"
  shows "kept 2000 t s \<longleftrightarrow> s + 100 \<le> int (length t)"
proof -
  have "\<forall>c\<in>set (py_slice t s (s + 2000)). \<not> isspace c"
    using assms(1) set_py_slice[of t s "s + 2000"] by blast
  then have "strip (py_slice t s (s + 2000)) = py_slice t s (s + 2000)"
    by (rule strip_no_space)
  moreover have "int (length (py_slice t s (s + 2000))) =
      min (s + 2000) (int (length t)) - min s (int (length t))"
    using assms(2) by (intro length_py_slice) simp_all
  ultimately have "kept 2000 t s \<longleftrightarrow>
      s < int (length t) \<and> 100 \<le> min (s + 2000) (int (length t)) - min s (int (length t))"
    unfolding kept_def by (simp del: of_nat_min) linarith
  then show ?thesis by (auto simp: min_def)
qed


lemma count_upper:
  assumes "\<forall>i<n. kept 2000 t (int i * 1800)"
  shows "n \<le> (length t + 1799) div 1800"
proof -
  have "int n * 1800 < int (length t) + 1800"
    using emitted_count_bound[of 1800 n 2000 t] assms by simp
  then have "n * 1800 < length t + 1800" by linarith
  then show ?thesis by simp
qed

lemma count_no_space:
  assumes ns: "\<forall>c\<in>set t. \<not> isspace c" and L: "100 \<le> length t"
    and k: "\<forall>i<n. kept 2000 t (int i * 1800)" and stop: "\<not> kept 2000 t (int n * 1800)"
  shows "n = (length t - 100) div 1800 + 1"
proof -
  have stop': "length t < n * 1800 + 100"
    using stop kept_no_space[OF ns, of "int n * 1800"] by simp
  have "n \<noteq> 0" using stop' L by (cases n) simp_all
  then obtain m where n: "n = Suc m" by (cases n) simp_all
  with k have "kept 2000 t (int m * 1800)" by simp
  then have "m * 1800 + 100 \<le> length t"
    using kept_no_space[OF ns, of "int m * 1800"] by simp
  with stop' n L show ?thesis by simp
qed

lemma full_windows_no_space:
  assumes L: "2000 \<le> length t" and n: "n = (length t - 100) div 1800 + 1"
  shows "length (filter (\<lambda>c. char_end c \<le> int (length t)) (emitted 2000 200 t src 0 0 n)) =
           (length t - 2000) div 1800 + 1"
proof -
  let ?m = "(length t - 2000) div 1800"
  have mn: "?m < n" using L n by simp
  have iff: "\<And>i. int i * 1800 + 2000 \<le> int (length t) \<longleftrightarrow> i \<le> ?m"
  proof -
    fix i
    have "int i * 1800 + 2000 \<le> int (length t) \<longleftrightarrow> i * 1800 + 2000 \<le> length t"
      by linarith
    also have "\<dots> \<longleftrightarrow> i * 1800 \<le> length t - 2000" using L by linarith
    also have "\<dots> \<longleftrightarrow> i \<le> ?m" by (simp add: less_eq_div_iff_mult_less_eq)
    finally show "int i * 1800 + 2000 \<le> int (length t) \<longleftrightarrow> i \<le> ?m" .
  qed
  have "filter (\<lambda>c. char_end c \<le> int (length t)) (emitted 2000 200 t src 0 0 n) =
          map (\<lambda>i. window 2000 t src (int i * 1800) (int i)) (filter (\<lambda>i. i \<le> ?m) [0..<n])"
    by (simp add: emitted_def filter_map o_def window_sel iff)
  moreover have "filter (\<lambda>i. i \<le> ?m) [0..<n] = [0..<Suc ?m]"
  proof -
    have "[0..<n] = [0..<Suc ?m] @ [Suc ?m..<n]"
      using mn by (metis Suc_leI le0 upt_add_eq_append le_add_diff_inverse)
    then show ?thesis by (simp del: upt_Suc)
  qed
  ultimately show ?thesis by (simp del: upt_Suc)
qed

section \<open>Claims about the chunker\<close>

text \<open>
  C3. For every text and source and all parameters with \<open>0 \<le> overlap < chunk_size\<close>,
  \<open>chunk_text\<close> returns a sequence in which the \<open>chunk_index\<close> of the i-th chunk is
  \<open>i\<close> (counting from 0), the \<open>char_start\<close> values of consecutive chunks increase
  strictly, by exactly \<open>chunk_size - overlap\<close>, and the sequence is in ascending order of
  both \<open>chunk_index\<close> and \<open>char_start\<close>.
\<close>

theorem chunk_text_indices_and_offsets:
  assumes "0 \<le> overlap" and "overlap < chunk_size"
  shows "\<exists>chunks. chunk_text chunk_size overlap t src = Some chunks \<and>
           (\<forall>i<length chunks. chunk_index (chunks ! i) = int i) \<and>
           (\<forall>i. Suc i < length chunks \<longrightarrow>
                char_start (chunks ! Suc i) - char_start (chunks ! i) = chunk_size - overlap \<and>
                char_start (chunks ! i) < char_start (chunks ! Suc i)) \<and>
           sorted_wrt (<) (map chunk_index chunks) \<and>
           sorted_wrt (<) (map char_start chunks)"
proof -
  from assms have step: "0 < chunk_size - overlap" by simp
  then obtain chunks where r: "chunk_text chunk_size overlap t src = Some chunks"
    using chunk_text_terminates by blast
  from chunk_text_shape[OF r] obtain n where
    c: "chunks = emitted chunk_size overlap t src 0 0 n" by blast
  have "\<forall>i<length chunks. chunk_index (chunks ! i) = int i"
    by (simp add: c length_emitted nth_emitted window_sel)
  moreover have "\<forall>i. Suc i < length chunks \<longrightarrow>
                char_start (chunks ! Suc i) - char_start (chunks ! i) = chunk_size - overlap \<and>
                char_start (chunks ! i) < char_start (chunks ! Suc i)"
    using step by (simp add: c length_emitted nth_emitted window_sel algebra_simps)
  moreover have "sorted_wrt (<) (map chunk_index chunks)"
    unfolding c by (rule sorted_wrt_emitted_index)
  moreover have "sorted_wrt (<) (map char_start chunks)"
    unfolding c by (rule sorted_wrt_emitted_start[OF step])
  ultimately show ?thesis using r by blast
qed

theorem chunk_text_indices_and_offsets_witness:
  "(0::int) \<le> 200 \<and> (200::int) < 2000 \<and>
   (\<exists>chunks. chunk_text 2000 200 (replicate 2000 97) (ustr ''/docs/a.txt'') = Some chunks \<and>
           (\<forall>i<length chunks. chunk_index (chunks ! i) = int i) \<and>
           (\<forall>i. Suc i < length chunks \<longrightarrow>
                char_start (chunks ! Suc i) - char_start (chunks ! i) = 2000 - 200 \<and>
                char_start (chunks ! i) < char_start (chunks ! Suc i)) \<and>
           sorted_wrt (<) (map chunk_index chunks) \<and>
           sorted_wrt (<) (map char_start chunks))"
proof -
  have h1: "(0::int) \<le> 200" and h2: "(200::int) < 2000" by simp_all
  from chunk_text_indices_and_offsets[OF h1 h2, of "replicate 2000 97" "ustr ''/docs/a.txt''"] h1 h2
  show ?thesis by blast
qed

text \<open>
  C7. For every text and source, when \<open>0 \<le> overlap < chunk_size\<close> the loop of
  \<open>chunk_text\<close> ends: the start offset grows by \<open>chunk_size - overlap > 0\<close> in each
  iteration and every emitted window starts inside the text, which bounds the number of
  chunks. The result is a finite list, and it is the only result for these inputs.
\<close>

theorem chunk_text_terminates_deterministic:
  assumes "0 \<le> overlap" and "overlap < chunk_size"
  shows "\<exists>!chunks. chunk_text chunk_size overlap t src = Some chunks \<and>
           int (length chunks) * (chunk_size - overlap) < int (length t) + (chunk_size - overlap)"
proof -
  from assms have step: "0 < chunk_size - overlap" by simp
  then obtain chunks where r: "chunk_text chunk_size overlap t src = Some chunks"
    using chunk_text_terminates by blast
  from chunk_text_shape[OF r] obtain n where
    c: "chunks = emitted chunk_size overlap t src 0 0 n"
    and k: "\<forall>i<n. kept chunk_size t (int i * (chunk_size - overlap))" by blast
  have "int (length chunks) * (chunk_size - overlap) < int (length t) + (chunk_size - overlap)"
    using emitted_count_bound[OF step k] by (simp add: c length_emitted)
  with r show ?thesis by auto
qed

theorem chunk_text_terminates_deterministic_witness:
  "(0::int) \<le> 200 \<and> (200::int) < 2000 \<and>
   (\<exists>!chunks. chunk_text 2000 200 (replicate 2000 97) [] = Some chunks \<and>
      int (length chunks) * (2000 - 200) < int (length (replicate 2000 (97::nat))) + (2000 - 200))"
proof -
  have h1: "(0::int) \<le> 200" and h2: "(200::int) < 2000" by simp_all
  from chunk_text_terminates_deterministic[OF h1 h2, of "replicate 2000 97" "[]"] h1 h2
  show ?thesis by blast
qed

text \<open>
  C10. For every text, source and parameters, every chunk that \<open>chunk_text\<close> returns has
  \<open>char_end - char_start = chunk_size\<close>, the last one included: \<open>char_end\<close> is never
  clamped to the end of the text. So the recorded \<open>char_end\<close> of the last chunk can lie
  beyond the text, with a stored chunk text shorter than \<open>chunk_size\<close>; a text of 100
  letters under the default parameters is such a case.
\<close>

theorem chunk_span_is_chunk_size:
  "(chunk_text chunk_size overlap t src = Some chunks \<longrightarrow>
      (\<forall>c\<in>set chunks. char_end c - char_start c = chunk_size)) \<and>
   (\<exists>t' c. chunk_text CHUNK_SIZE_CHARS CHUNK_OVERLAP_CHARS t' src = Some [c] \<and>
       int (length t') < char_end c \<and> int (length (text' c)) < CHUNK_SIZE_CHARS)"
proof (intro conjI impI)
  assume r: "chunk_text chunk_size overlap t src = Some chunks"
  from chunk_text_shape[OF r] obtain n where
    c: "chunks = emitted chunk_size overlap t src 0 0 n" by blast
  show "\<forall>c\<in>set chunks. char_end c - char_start c = chunk_size"
    by (auto simp: c emitted_def window_sel)
next
  have "chunk_text 2000 200 (replicate 100 97) src =
          Some [\<lparr>text' = replicate 100 97, source = src, chunk_index = 0, char_start = 0,
                 char_end = 2000\<rparr>]"
    by (simp add: chunk_text_def chunk_loop.simps py_slice_def slice_bound_def strip_def
        isspace_def)
  then show "\<exists>t' c. chunk_text CHUNK_SIZE_CHARS CHUNK_OVERLAP_CHARS t' src = Some [c] \<and>
       int (length t') < char_end c \<and> int (length (text' c)) < CHUNK_SIZE_CHARS"
    unfolding CHUNK_SIZE_CHARS_def CHUNK_OVERLAP_CHARS_def
    by (intro exI[of _ "replicate 100 97"]
        exI[of _ "\<lparr>text' = replicate 100 97, source = src, chunk_index = 0, char_start = 0,
                 char_end = 2000\<rparr>"]) simp
qed

theorem chunk_span_is_chunk_size_witness:
  "chunk_text 2000 200 (replicate 2000 97) [] =
     Some [\<lparr>text' = replicate 2000 97, source = [], chunk_index = 0, char_start = 0,
             char_end = 2000\<rparr>,
           \<lparr>text' = replicate 200 97, source = [], chunk_index = 1, char_start = 1800,
             char_end = 3800\<rparr>] \<and>
   list_all (\<lambda>c. char_end c - char_start c = 2000)
     [\<lparr>text' = replicate 2000 97, source = [], chunk_index = 0, char_start = 0,
       char_end = 2000\<rparr>,
      \<lparr>text' = replicate 200 97, source = [], chunk_index = 1, char_start = 1800,
       char_end = 3800\<rparr>]"
proof -
  have h: "chunk_text 2000 200 (replicate 2000 97) [] =
     Some [\<lparr>text' = replicate 2000 97, source = [], chunk_index = 0, char_start = 0,
             char_end = 2000\<rparr>,
           \<lparr>text' = replicate 200 97, source = [], chunk_index = 1, char_start = 1800,
             char_end = 3800\<rparr>]"
    by (simp add: chunk_text_def chunk_loop.simps py_slice_def slice_bound_def strip_def
        isspace_def)
  from chunk_span_is_chunk_size[of 2000 200 "replicate 2000 97" "[]"] h
  show ?thesis unfolding list_all_iff by blast
qed

text \<open>
  C1. The claim: with \<open>chunk_size = 2000\<close> and \<open>overlap = 200\<close>, every text of length
  \<open>L \<ge> 2000\<close> yields exactly \<open>(L - 2000) div 1800 + 1\<close> chunks, consecutive
  \<open>char_start\<close> values differing by 1800. The count is wrong for the code: a trailing
  window shorter than 2000 characters is emitted as long as 100 characters remain after
  trimming. A text of 2000 letters gives two chunks, the formula gives one.
\<close>

theorem chunk_count_formula_counterexample:
  "2000 \<le> length (replicate 2000 (97::nat)) \<and>
   map_option length (chunk_text 2000 200 (replicate 2000 97) (ustr ''/docs/a.txt'')) = Some 2 \<and>
   (length (replicate 2000 (97::nat)) - 2000) div 1800 + 1 = 1"
  by (simp add: chunk_text_def chunk_loop.simps py_slice_def slice_bound_def strip_def isspace_def)

text \<open>
  C1, as the code has it. With the default parameters \<open>chunk_text\<close> returns for every text
  of length \<open>L\<close>; consecutive \<open>char_start\<close> values differ by 1800; there are at most
  \<open>\<lceil>L / 1800\<rceil>\<close> chunks; and when \<open>L \<ge> 2000\<close> and the text has no whitespace
  character (so that trimming removes nothing and no window is cut off early) there are
  exactly \<open>(L - 100) div 1800 + 1\<close> chunks, of which \<open>(L - 2000) div 1800 + 1\<close> are
  full windows, with \<open>char_end \<le> L\<close>.
\<close>

theorem chunk_count_default_parameters:
  "\<exists>chunks. chunk_text CHUNK_SIZE_CHARS CHUNK_OVERLAP_CHARS t src = Some chunks \<and>
     (\<forall>i. Suc i < length chunks \<longrightarrow>
          char_start (chunks ! Suc i) - char_start (chunks ! i) = 1800) \<and>
     length chunks \<le> (length t + 1799) div 1800 \<and>
     ((\<forall>c\<in>set t. \<not> isspace c) \<and> 2000 \<le> length t \<longrightarrow>
        length chunks = (length t - 100) div 1800 + 1 \<and>
        length (filter (\<lambda>c. char_end c \<le> int (length t)) chunks) =
          (length t - 2000) div 1800 + 1)"
proof -
  obtain chunks where r: "chunk_text 2000 200 t src = Some chunks"
    using chunk_text_terminates[of 2000 200 t src] by auto
  from chunk_text_shape[OF r] obtain n where
    c: "chunks = emitted 2000 200 t src 0 0 n"
    and k: "\<forall>i<n. kept 2000 t (int i * 1800)"
    and stop: "\<not> kept 2000 t (int n * 1800)" by auto
  have d: "\<forall>i. Suc i < length chunks \<longrightarrow>
          char_start (chunks ! Suc i) - char_start (chunks ! i) = 1800"
    by (simp add: c length_emitted nth_emitted window_sel)
  have u: "length chunks \<le> (length t + 1799) div 1800"
    using count_upper[OF k] by (simp add: c length_emitted)
  have e: "(\<forall>c\<in>set t. \<not> isspace c) \<and> 2000 \<le> length t \<longrightarrow>
        length chunks = (length t - 100) div 1800 + 1 \<and>
        length (filter (\<lambda>c. char_end c \<le> int (length t)) chunks) =
          (length t - 2000) div 1800 + 1"
  proof (intro impI, elim conjE)
    assume ns: "\<forall>c\<in>set t. \<not> isspace c" and L: "2000 \<le> length t"
    from L have "100 \<le> length t" by simp
    from count_no_space[OF ns this k stop] have n: "n = (length t - 100) div 1800 + 1" .
    show "length chunks = (length t - 100) div 1800 + 1 \<and>
        length (filter (\<lambda>c. char_end c \<le> int (length t)) chunks) =
          (length t - 2000) div 1800 + 1"
      using n full_windows_no_space[OF L n, of src] by (simp add: c length_emitted)
  qed
  from r d u e show ?thesis
    unfolding CHUNK_SIZE_CHARS_def CHUNK_OVERLAP_CHARS_def by blast
qed

theorem chunk_count_default_parameters_witness:
  "list_all (\<lambda>c. \<not> isspace c) (replicate 2000 (97::nat)) \<and>
   2000 \<le> length (replicate 2000 (97::nat)) \<and>
   (\<exists>chunks. chunk_text CHUNK_SIZE_CHARS CHUNK_OVERLAP_CHARS (replicate 2000 97) [] = Some chunks \<and>
      length chunks = 2 \<and>
      length (filter (\<lambda>c. char_end c \<le> 2000) chunks) = 1)"
proof -
  have h: "(\<forall>c\<in>set (replicate 2000 (97::nat)). \<not> isspace c) \<and> 2000 \<le> length (replicate 2000 (97::nat))"
    by (simp add: isspace_def)
  then have l: "list_all (\<lambda>c. \<not> isspace c) (replicate 2000 (97::nat))"
    by (simp add: list_all_iff)
  from chunk_count_default_parameters[of "replicate 2000 97" "[]"] h l
  show ?thesis by auto
qed

section \<open>The embedding loop\<close>

lemma batch_loop_collect:
  "batch_loop svc g tt texts acc =
     (case collect_results (map (\<lambda>t. generate_embedding svc g t tt) texts) of
        Inl e \<Rightarrow> Inl e
      | Inr vs \<Rightarrow> Inr (acc @ vs))"
proof (induction texts arbitrary: acc)
  case Nil
  show ?case by simp
next
  case (Cons t texts)
  show ?case
  proof (cases "generate_embedding svc g t tt")
    case (Inl e)
    then show ?thesis by simp
  next
    case (Inr v)
    then show ?thesis
      using Cons.IH[of "acc @ [v]"] by (simp split: sum.splits)
  qed
qed

lemma collect_results_Inr:
  "collect_results rs = Inr vs \<Longrightarrow>
     length vs = length rs \<and> (\<forall>i<length rs. rs ! i = Inr (vs ! i))"
proof (induction rs arbitrary: vs)
  case Nil
  then show ?case by simp
next
  case (Cons r rs)
  from Cons.prems obtain v vs' where r: "r = Inr v" and c: "collect_results rs = Inr vs'"
    and vs: "vs = v # vs'"
    by (auto split: sum.splits)
  from Cons.IH[OF c] have len: "length vs' = length rs"
    and nth: "\<forall>i<length rs. rs ! i = Inr (vs' ! i)" by simp_all
  show ?case
  proof (intro conjI allI impI)
    show "length vs = length (r # rs)" using len vs by simp
  next
    fix i assume "i < length (r # rs)"
    then show "(r # rs) ! i = Inr (vs ! i)"
      using r vs nth by (cases i) simp_all
  qed
qed

lemma collect_results_Inl:
  "collect_results rs = Inl e \<Longrightarrow> Inl e \<in> set rs"
  by (induction rs) (auto split: sum.splits)

lemma collect_results_all_ok:
  "\<forall>r\<in>set rs. \<exists>v. r = Inr v \<Longrightarrow> \<exists>vs. collect_results rs = Inr vs"
  by (induction rs) auto

lemma length_batch_embeddings:
  assumes "generate_batch_embeddings svc g texts mode = Inr vs"
  shows "length vs = length texts"
proof -
  have "generate_batch_embeddings svc g texts mode =
          collect_results (map (\<lambda>t. generate_embedding svc g t mode) texts)"
    unfolding generate_batch_embeddings_def
    by (simp add: batch_loop_collect split: sum.splits)
  with assms have "collect_results (map (\<lambda>t. generate_embedding svc g t mode) texts) = Inr vs"
    by simp
  from collect_results_Inr[OF this] show ?thesis by simp
qed

lemma rows_of_Table: "rows_of (Table rows) = rows"
  by (simp add: rows_of_def)

section \<open>The outcomes of the boundary operations\<close>

lemma ingest_ok_hd: "ingest_ok s \<Longrightarrow> s \<noteq> [] \<and> hd s = 83"
  by (cases s) (auto simp: ingest_ok_def ustr_def)

lemma is_error_result_hd: "is_error_result s \<Longrightarrow> s \<noteq> [] \<and> hd s = 69"
  by (cases s) (auto simp: is_error_result_def ustr_def)

lemma is_error_result_Error [simp]: "is_error_result (ustr ''Error'' @ x)"
  by (simp add: is_error_result_def ustr_def)

lemma error_messages:
  "ustr ''Error: File '' @ x = ustr ''Error'' @ (ustr '': File '' @ x)"
  "ustr ''Error: Could not extract meaningful text from '' @ x =
     ustr ''Error'' @ (ustr '': Could not extract meaningful text from '' @ x)"
  "ustr ''Error: No chunks created from '' @ x = ustr ''Error'' @ (ustr '': No chunks created from '' @ x)"
  "ustr ''Error indexing document: '' @ x = ustr ''Error'' @ (ustr '' indexing document: '' @ x)"
  "ustr ''Error searching knowledge base: '' @ x = ustr ''Error'' @ (ustr '' searching knowledge base: '' @ x)"
  "ustr ''Error accessing knowledge base: '' @ x = ustr ''Error'' @ (ustr '' accessing knowledge base: '' @ x)"
  by (simp_all add: ustr_def)

lemma store_rows_cases:
  "store_rows env kb data = (r, kb') \<Longrightarrow>
     (r = Inr () \<and> kb' = Table (rows_of kb @ data)) \<or> ((\<exists>e. r = Inl e) \<and> kb' = kb)"
  by (auto simp: store_rows_def connect_def open_table_def table_add_def create_table_def
      rows_of_def split: option.splits sum.splits store.splits prod.splits)

lemma default_chunk_text_returns:
  "\<exists>chunks. chunk_text CHUNK_SIZE_CHARS CHUNK_OVERLAP_CHARS t src = Some chunks"
  by (rule chunk_text_terminates) (simp add: CHUNK_SIZE_CHARS_def CHUNK_OVERLAP_CHARS_def)

text \<open>The outcomes of the body, one per way through the code.\<close>

lemma index_document_body_cases:
  fixes env :: "'v env" and p :: pystr
  defines "src \<equiv> path_absolute env p"
  shows "(\<not> path_exists env p \<and>
            index_document_body env p kb =
              Some (Inr (ustr ''Error: File '' @ p @ ustr '' does not exist''), kb)) \<or>
         (path_exists env p \<and> (\<exists>e. convert env src = Inl e \<and>
            index_document_body env p kb = Some (Inl e, kb))) \<or>
         (path_exists env p \<and> (\<exists>t. convert env src = Inr t \<and> length (strip t) < 50 \<and>
            index_document_body env p kb =
              Some (Inr (ustr ''Error: Could not extract meaningful text from '' @ p), kb))) \<or>
         (path_exists env p \<and> (\<exists>t. convert env src = Inr t \<and> 50 \<le> length (strip t) \<and>
            chunk_text CHUNK_SIZE_CHARS CHUNK_OVERLAP_CHARS t src = Some [] \<and>
            index_document_body env p kb =
              Some (Inr (ustr ''Error: No chunks created from '' @ p), kb))) \<or>
         (path_exists env p \<and> (\<exists>t chunks e. convert env src = Inr t \<and> 50 \<le> length (strip t) \<and>
            chunk_text CHUNK_SIZE_CHARS CHUNK_OVERLAP_CHARS t src = Some chunks \<and> chunks \<noteq> [] \<and>
            generate_batch_embeddings (embed_content env) EmbeddingGenerator (map text' chunks)
              TASK_TYPE_DOCUMENT = Inl e \<and>
            index_document_body env p kb = Some (Inl e, kb))) \<or>
         (path_exists env p \<and> (\<exists>t chunks embeddings r kb'. convert env src = Inr t \<and>
            50 \<le> length (strip t) \<and>
            chunk_text CHUNK_SIZE_CHARS CHUNK_OVERLAP_CHARS t src = Some chunks \<and> chunks \<noteq> [] \<and>
            generate_batch_embeddings (embed_content env) EmbeddingGenerator (map text' chunks)
              TASK_TYPE_DOCUMENT = Inr embeddings \<and>
            store_rows env kb (data_for_db chunks embeddings) = (r, kb') \<and>
            index_document_body env p kb =
              Some (case r of Inl e \<Rightarrow> Inl e
                    | Inr _ \<Rightarrow> Inr (ustr ''Successfully indexed '' @ path_name env p
                                            @ ustr '': '' @ str_int (int (length chunks))
                                            @ ustr '' chunks created and embedded''), kb')))"
proof (cases "path_exists env p")
  case False
  then show ?thesis by (simp add: index_document_body_def)
next
  case ex: True
  show ?thesis
  proof (cases "convert env src")
    case (Inl e)
    with ex show ?thesis by (simp add: index_document_body_def src_def)
  next
    case (Inr t)
    show ?thesis
    proof (cases "length (strip t) < 50")
      case True
      with ex Inr show ?thesis by (simp add: index_document_body_def src_def)
    next
      case long: False
      then have ne: "t \<noteq> []" by (auto simp: strip_def)
      obtain chunks where ch: "chunk_text CHUNK_SIZE_CHARS CHUNK_OVERLAP_CHARS t src = Some chunks"
        using default_chunk_text_returns by blast
      show ?thesis
      proof (cases "chunks = []")
        case True
        with ex Inr long ne ch show ?thesis by (simp add: index_document_body_def src_def)
      next
        case cne: False
        show ?thesis
        proof (cases "generate_batch_embeddings (embed_content env) EmbeddingGenerator
                        (map text' chunks) TASK_TYPE_DOCUMENT")
          case (Inl e)
          with ex Inr long ne ch cne show ?thesis
            by (simp add: index_document_body_def src_def)
        next
          case emb: (Inr embeddings)
          obtain r kb' where st: "store_rows env kb (data_for_db chunks embeddings) = (r, kb')"
            by (cases "store_rows env kb (data_for_db chunks embeddings)")
          have "index_document_body env p kb =
              Some (case r of Inl e \<Rightarrow> Inl e
                    | Inr _ \<Rightarrow> Inr (ustr ''Successfully indexed '' @ path_name env p
                                            @ ustr '': '' @ str_int (int (length chunks))
                                            @ ustr '' chunks created and embedded''), kb')"
            using ex Inr long ne ch cne emb st
            by (simp add: index_document_body_def src_def split: sum.splits)
          with ex Inr long ch cne emb st show ?thesis by (simp add: src_def)
        qed
      qed
    qed
  qed
qed


lemma index_document_returns:
  "\<exists>s kb'. index_document env p kb = Some (Inr s, kb') \<and> s \<noteq> []"
proof -
  have ne: "\<And>c cs x. ustr (c # cs) @ x \<noteq> []" by (simp add: ustr_def)
  from index_document_body_cases[of env p kb]
  obtain r kb' where b: "index_document_body env p kb = Some (r, kb')"
    and r: "(\<exists>e. r = Inl e) \<or> (\<exists>c cs x. r = Inr (ustr (c # cs) @ x))"
    by (elim disjE conjE exE) (auto split: sum.splits)
  from r show ?thesis
  proof
    assume "\<exists>e. r = Inl e"
    with b show ?thesis by (auto simp: index_document_def ustr_def)
  next
    assume "\<exists>c cs x. r = Inr (ustr (c # cs) @ x)"
    with b show ?thesis by (auto simp: index_document_def ustr_def)
  qed
qed


lemma ustr_nonempty: "ustr (c # cs) @ x \<noteq> []"
  by (simp add: ustr_def)

lemma ustr_nonempty': "ustr (c # cs) \<noteq> []"
  by (simp add: ustr_def)

lemma join_nonempty: "x \<noteq> [] \<Longrightarrow> join sep (x # xs) \<noteq> []"
  by (cases xs) simp_all

lemma search_knowledge_base_returns:
  "\<exists>s. search_knowledge_base env q k kb = Inr s \<and> s \<noteq> []"
proof (cases "search_knowledge_base_body env q k kb")
  case (Inl e)
  then show ?thesis by (simp add: search_knowledge_base_def ustr_def)
next
  case (Inr s)
  then have "s \<noteq> []"
    by (auto simp: search_knowledge_base_body_def ustr_nonempty ustr_nonempty' join_nonempty
        split: if_splits sum.splits)
  with Inr show ?thesis by (simp add: search_knowledge_base_def)
qed

lemma get_indexed_documents_returns:
  "\<exists>s. get_indexed_documents env kb = Inr s \<and> s \<noteq> []"
proof (cases "get_indexed_documents_body env kb")
  case (Inl e)
  then show ?thesis by (simp add: get_indexed_documents_def ustr_def)
next
  case (Inr s)
  then have "s \<noteq> []"
    by (auto simp: get_indexed_documents_body_def summary_lines_def ustr_nonempty ustr_nonempty' join_nonempty
        split: if_splits sum.splits)
  with Inr show ?thesis by (simp add: get_indexed_documents_def)
qed

lemma search_missing:
  "search_knowledge_base env q k Missing =
     Inr (ustr ''Knowledge base not found. Please index some documents first using the index_document tool.'')"
  by (simp add: search_knowledge_base_def search_knowledge_base_body_def)

lemma search_no_matches:
  assumes "generate_embedding (embed_content env) EmbeddingGenerator q TASK_TYPE_QUERY = Inr qe"
    and "fault env Connect = None" and "fault env OpenTable = None" and "fault env Search = None"
    and "vector_search env rows qe k = Inr []"
  shows "search_knowledge_base env q k (Table rows) =
           Inr (ustr ''No relevant information found for query: '' @ [39] @ q @ [39])"
  using assms
  by (simp add: search_knowledge_base_def search_knowledge_base_body_def connect_def
      open_table_def table_search_def)

lemma search_matches:
  assumes "generate_embedding (embed_content env) EmbeddingGenerator q TASK_TYPE_QUERY = Inr qe"
    and "fault env Connect = None" and "fault env OpenTable = None" and "fault env Search = None"
    and "vector_search env rows qe k = Inr results" and "results \<noteq> []"
  shows "search_knowledge_base env q k (Table rows) =
           Inr (join [10]
                  ((ustr ''Found '' @ str_int (int (length results))
                      @ ustr '' relevant chunks for '' @ [39] @ q @ [39] @ ustr '':'' @ [10])
                   # format_results env 1 results))"
  using assms
  by (simp add: search_knowledge_base_def search_knowledge_base_body_def connect_def
      open_table_def table_search_def)

lemma get_indexed_missing:
  "get_indexed_documents env Missing =
     Inr (ustr ''Knowledge base is empty (no documents indexed yet)'')"
  by (simp add: get_indexed_documents_def get_indexed_documents_body_def)

lemma not_error_messages:
  "\<not> is_error_result (ustr ''Knowledge base not found. Please index some documents first using the index_document tool.'')"
  "\<not> is_error_result (ustr ''Knowledge base is empty (no documents indexed yet)'')"
  "\<not> is_error_result (ustr ''No relevant information found for query: '' @ x)"
  "\<not> is_error_result (ustr ''No documents have been indexed yet. Use index_document first.'')"
  by (simp_all add: is_error_result_def ustr_def)

lemma hd_join: "x \<noteq> [] \<Longrightarrow> hd (join sep (x # xs)) = hd x"
  by (cases xs) simp_all

lemma not_error_found:
  "\<not> is_error_result (join [10] ((ustr ''Found '' @ x) # xs))"
proof
  assume "is_error_result (join [10] ((ustr ''Found '' @ x) # xs))"
  from is_error_result_hd[OF this] have "hd (join [10] ((ustr ''Found '' @ x) # xs)) = 69" by simp
  moreover have "hd (join [10] ((ustr ''Found '' @ x) # xs)) = hd (ustr ''Found '' @ x)"
    by (rule hd_join) (simp add: ustr_def)
  ultimately show False by (simp add: ustr_def)
qed


lemma get_indexed_no_table:
  "fault env Connect = None \<Longrightarrow>
   get_indexed_documents env NoTable =
     Inr (ustr ''Knowledge base is empty (no documents indexed yet)'')"
  by (simp add: get_indexed_documents_def get_indexed_documents_body_def connect_def
      open_table_def split: option.splits)

lemma subseq_format_results:
  "subseq (map (\<lambda>r. take 500 (text' r)) results) (format_results env i results)"
proof (induction results arbitrary: i)
  case Nil
  show ?case by simp
next
  case (Cons r results)
  let ?rest = "(if length (text' r) > 500 then [ustr ''... (truncated)''] else [])
             @ format_results env (i + 1) results"
  have "subseq (map (\<lambda>r. take 500 (text' r)) results) ?rest"
    using Cons.IH[of "i + 1"] by (rule list_emb_append2)
  then have "subseq (take 500 (text' r) # map (\<lambda>r. take 500 (text' r)) results)
               (take 500 (text' r) # ?rest)"
    by (rule subseq_Cons2)
  then have "subseq (take 500 (text' r) # map (\<lambda>r. take 500 (text' r)) results)
               (([10] @ ustr ''--- Result '' @ str_int i @ ustr '' (from ''
                   @ path_name env (source r) @ ustr '', chunk '' @ str_int (chunk_index r)
                   @ ustr '') ---'') # take 500 (text' r) # ?rest)"
    by (rule list_emb_Cons)
  then show ?case by (simp only: format_results.simps list.map)
qed

lemma hd_notfound:
  "hd (ustr ''Knowledge base not found. Please index some documents first using the index_document tool.'') = 75"
  by (simp add: ustr_def)

lemma hd_norelevant: "hd (ustr ''No relevant information found for query: '' @ x) = 78"
  by (simp add: ustr_def)

lemma hd_found: "hd (join [10] ((ustr ''Found '' @ x) # xs)) = 70"
proof -
  have "hd (join [10] ((ustr ''Found '' @ x) # xs)) = hd (ustr ''Found '' @ x)"
    by (rule hd_join) (simp add: ustr_def)
  then show ?thesis by (simp add: ustr_def)
qed

lemma index_document_success:
  fixes env :: "'v env"
  assumes run: "index_document env p kb = Some (Inr m, kb')" and ok: "ingest_ok m"
  shows "\<exists>t chunks embeddings.
           convert env (path_absolute env p) = Inr t \<and>
           chunk_text CHUNK_SIZE_CHARS CHUNK_OVERLAP_CHARS t (path_absolute env p) = Some chunks \<and>
           chunks \<noteq> [] \<and>
           generate_batch_embeddings (embed_content env) EmbeddingGenerator (map text' chunks)
             TASK_TYPE_DOCUMENT = Inr embeddings \<and>
           kb' = Table (rows_of kb @ data_for_db chunks embeddings)"
proof -
  let ?src = "path_absolute env p"
  have hd: "hd m = 83" using ingest_ok_hd[OF ok] by simp
  have no_err: "\<And>x. m \<noteq> ustr ''Error'' @ x"
  proof
    fix x assume "m = ustr ''Error'' @ x"
    then have "hd m = 69" by (simp add: ustr_def)
    with hd show False by simp
  qed
  from index_document_body_cases[of env p kb]
  consider
    (missing) "index_document_body env p kb =
              Some (Inr (ustr ''Error: File '' @ p @ ustr '' does not exist''), kb)"
  | (raised) e where "index_document_body env p kb = Some (Inl e, kb)"
  | (short) "index_document_body env p kb =
              Some (Inr (ustr ''Error: Could not extract meaningful text from '' @ p), kb)"
  | (nochunks) "index_document_body env p kb =
              Some (Inr (ustr ''Error: No chunks created from '' @ p), kb)"
  | (stored) t chunks embeddings r kb2 where "convert env ?src = Inr t"
      "chunk_text CHUNK_SIZE_CHARS CHUNK_OVERLAP_CHARS t ?src = Some chunks" "chunks \<noteq> []"
      "generate_batch_embeddings (embed_content env) EmbeddingGenerator (map text' chunks)
              TASK_TYPE_DOCUMENT = Inr embeddings"
      "store_rows env kb (data_for_db chunks embeddings) = (r, kb2)"
      "index_document_body env p kb =
              Some (case r of Inl e \<Rightarrow> Inl e
                    | Inr _ \<Rightarrow> Inr (ustr ''Successfully indexed '' @ path_name env p
                                            @ ustr '': '' @ str_int (int (length chunks))
                                            @ ustr '' chunks created and embedded''), kb2)"
    by blast
  then show ?thesis
  proof cases
    case missing
    with run have "m = ustr ''Error'' @ (ustr '': File '' @ p @ ustr '' does not exist'')"
      by (simp add: index_document_def error_messages)
    with no_err show ?thesis by blast
  next
    case raised
    with run have "m = ustr ''Error'' @ (ustr '' indexing document: '' @ str_exn e)"
      by (simp add: index_document_def error_messages)
    with no_err show ?thesis by blast
  next
    case short
    with run have "m = ustr ''Error'' @ (ustr '': Could not extract meaningful text from '' @ p)"
      by (simp add: index_document_def error_messages)
    with no_err show ?thesis by blast
  next
    case nochunks
    with run have "m = ustr ''Error'' @ (ustr '': No chunks created from '' @ p)"
      by (simp add: index_document_def error_messages)
    with no_err show ?thesis by blast
  next
    case stored
    show ?thesis
    proof (cases r)
      case (Inl e)
      with stored(6) run have "m = ustr ''Error'' @ (ustr '' indexing document: '' @ str_exn e)"
        by (simp add: index_document_def error_messages)
      with no_err show ?thesis by blast
    next
      case (Inr u)
      with stored(6) run have "kb' = kb2" by (simp add: index_document_def)
      moreover from store_rows_cases[OF stored(5)] Inr
      have "kb2 = Table (rows_of kb @ data_for_db chunks embeddings)" by auto
      ultimately show ?thesis using stored(1-4) by blast
    qed
  qed
qed

lemma chunk_text_source:
  assumes "chunk_text cs ov t src = Some chunks"
  shows "\<forall>c\<in>set chunks. source c = src"
proof -
  from chunk_text_shape[OF assms] obtain n where "chunks = emitted cs ov t src 0 0 n" by blast
  then show ?thesis by (auto simp: emitted_def window_sel)
qed

lemma source_data_for_db:
  assumes "\<forall>c\<in>set chunks. source c = src"
  shows "\<forall>r\<in>set (data_for_db chunks embeddings). source r = src"
proof
  fix r assume "r \<in> set (data_for_db chunks embeddings)"
  then obtain c v where cv: "(c, v) \<in> set (zip chunks embeddings)" and s: "source r = source c"
    by (auto simp: data_for_db_def)
  from cv have "c \<in> set chunks" by (rule set_zip_leftD)
  with s show "source r = src" using assms by simp
qed

lemma length_data_for_db:
  "length embeddings = length chunks \<Longrightarrow> length (data_for_db chunks embeddings) = length chunks"
  by (simp add: data_for_db_def)

lemma doc_chunks_append: "doc_chunks (xs @ ys) src = doc_chunks xs src @ doc_chunks ys src"
  by (simp add: doc_chunks_def)

lemma doc_chunks_all: "\<forall>r\<in>set data. source r = src \<Longrightarrow> doc_chunks data src = data"
  by (simp add: doc_chunks_def)

lemma set_unique: "set (unique xs) = set xs"
proof (induction xs rule: unique.induct)
  case 1
  show ?case by simp
next
  case (2 x xs)
  then show ?case by auto
qed

lemma summary_line_present:
  assumes "src \<in> source ` set all_data"
  shows "ustr ''  '' @ [8226] @ ustr '' '' @ path_name env src @ ustr '' (''
           @ str_int (int (length (doc_chunks all_data src))) @ ustr '' chunks)''
         \<in> set (summary_lines env all_data)"
proof -
  from assms have "src \<in> set (unique (map source all_data))" by (simp add: set_unique)
  then show ?thesis unfolding summary_lines_def by (simp del: append_assoc)
qed

lemma get_indexed_table:
  assumes "fault env Connect = None" and "fault env OpenTable = None"
    and "fault env ToPandas = None"
  shows "get_indexed_documents env (Table rows) = Inr (join [10] (summary_lines env rows))"
  using assms
  by (simp add: get_indexed_documents_def get_indexed_documents_body_def connect_def
      open_table_def to_pandas_def)

section \<open>The example environment, evaluated\<close>

lemmas ex_defs = example_env_def example_service_def example_rows_def

lemma ex_chunks:
  "chunk_text CHUNK_SIZE_CHARS CHUNK_OVERLAP_CHARS (replicate 2000 97) src =
     Some [\<lparr>text' = replicate 2000 97, source = src, chunk_index = 0, char_start = 0,
             char_end = 2000\<rparr>,
           \<lparr>text' = replicate 200 97, source = src, chunk_index = 1, char_start = 1800,
             char_end = 3800\<rparr>]"
  by (simp add: CHUNK_SIZE_CHARS_def CHUNK_OVERLAP_CHARS_def chunk_text_def chunk_loop.simps
      py_slice_def slice_bound_def strip_def isspace_def)

lemma ex_index1:
  "index_document example_env (ustr ''/docs/a.txt'') Missing =
     Some (Inr (ustr ''Successfully indexed a.txt: 2 chunks created and embedded''),
           Table example_rows)"
  by (simp add: index_document_def index_document_body_def ex_defs ex_chunks strip_def
      isspace_def generate_batch_embeddings_def generate_embedding_def EmbeddingGenerator_def
      data_for_db_def store_rows_def connect_def open_table_def create_table_def table_add_def
      str_int_def digits.simps ustr_def)

lemma ex_index2:
  "index_document example_env (ustr ''/docs/a.txt'') (Table example_rows) =
     Some (Inr (ustr ''Successfully indexed a.txt: 2 chunks created and embedded''),
           Table (example_rows @ example_rows))"
  by (simp add: index_document_def index_document_body_def ex_defs ex_chunks strip_def
      isspace_def generate_batch_embeddings_def generate_embedding_def EmbeddingGenerator_def
      data_for_db_def store_rows_def connect_def open_table_def create_table_def table_add_def
      str_int_def digits.simps ustr_def)

lemma ex_ok: "ingest_ok (ustr ''Successfully indexed a.txt: 2 chunks created and embedded'')"
  by (simp add: ingest_ok_def ustr_def)


lemma ex_query:
  "generate_embedding (embed_content example_env) EmbeddingGenerator (ustr ''q'') TASK_TYPE_QUERY
     = Inr 1"
  by (simp add: generate_embedding_def ex_defs ustr_def)

lemma ex_faults:
  "fault example_env Connect = None" "fault example_env OpenTable = None"
  "fault example_env Search = None" "fault example_env ToPandas = None"
  by (simp_all add: example_env_def)

lemma ex_search:
  "vector_search example_env example_rows 1 5 = Inr example_rows"
  "vector_search example_env [] 1 5 = Inr []"
  by (simp_all add: example_env_def example_rows_def)

section \<open>Claims about the embedding generator\<close>

text \<open>
  C2. For every list of texts and every mode, \<open>generate_batch_embeddings\<close> is the mapping
  of \<open>generate_embedding\<close> over the list: it equals the repeated single calls of the
  specification; when it returns, it returns exactly one vector per text, in input order,
  the i-th being the result of \<open>generate_embedding\<close> on the i-th text alone with the same
  mode; it returns whenever every single call does; and when it raises, it raises what a
  single call on one of the texts raises.
\<close>

theorem batch_embeddings_map_single:
  "generate_batch_embeddings svc g texts mode = embed_batch_spec svc g texts mode \<and>
   (\<forall>vs. generate_batch_embeddings svc g texts mode = Inr vs \<longrightarrow>
      length vs = length texts \<and>
      (\<forall>i<length texts. generate_embedding svc g (texts ! i) mode = Inr (vs ! i))) \<and>
   ((\<forall>t\<in>set texts. \<exists>v. generate_embedding svc g t mode = Inr v) \<longrightarrow>
      (\<exists>vs. generate_batch_embeddings svc g texts mode = Inr vs)) \<and>
   (\<forall>e. generate_batch_embeddings svc g texts mode = Inl e \<longrightarrow>
      (\<exists>t\<in>set texts. generate_embedding svc g t mode = Inl e))"
proof -
  let ?rs = "map (\<lambda>t. generate_embedding svc g t mode) texts"
  have eq: "generate_batch_embeddings svc g texts mode = collect_results ?rs"
    unfolding generate_batch_embeddings_def
    by (simp add: batch_loop_collect split: sum.splits)
  have a: "generate_batch_embeddings svc g texts mode = embed_batch_spec svc g texts mode"
    using eq by (simp add: embed_batch_spec_def)
  have b: "\<forall>vs. generate_batch_embeddings svc g texts mode = Inr vs \<longrightarrow>
      length vs = length texts \<and>
      (\<forall>i<length texts. generate_embedding svc g (texts ! i) mode = Inr (vs ! i))"
  proof (intro allI impI)
    fix vs assume "generate_batch_embeddings svc g texts mode = Inr vs"
    then have "collect_results ?rs = Inr vs" using eq by simp
    from collect_results_Inr[OF this]
    show "length vs = length texts \<and>
      (\<forall>i<length texts. generate_embedding svc g (texts ! i) mode = Inr (vs ! i))"
      by simp
  qed
  have c: "(\<forall>t\<in>set texts. \<exists>v. generate_embedding svc g t mode = Inr v) \<longrightarrow>
      (\<exists>vs. generate_batch_embeddings svc g texts mode = Inr vs)"
  proof
    assume "\<forall>t\<in>set texts. \<exists>v. generate_embedding svc g t mode = Inr v"
    then have "\<forall>r\<in>set ?rs. \<exists>v. r = Inr v" by auto
    from collect_results_all_ok[OF this] show "\<exists>vs. generate_batch_embeddings svc g texts mode = Inr vs"
      using eq by simp
  qed
  have d: "\<forall>e. generate_batch_embeddings svc g texts mode = Inl e \<longrightarrow>
      (\<exists>t\<in>set texts. generate_embedding svc g t mode = Inl e)"
  proof (intro allI impI)
    fix e assume "generate_batch_embeddings svc g texts mode = Inl e"
    then have "collect_results ?rs = Inl e" using eq by simp
    from collect_results_Inl[OF this]
    show "\<exists>t\<in>set texts. generate_embedding svc g t mode = Inl e" by auto
  qed
  from a b c d show ?thesis by blast
qed

theorem batch_embeddings_map_single_witness:
  "generate_batch_embeddings example_service EmbeddingGenerator [ustr ''ab'', ustr ''c'']
     TASK_TYPE_QUERY = Inr [2, 1] \<and>
   length [2, 1 :: nat] = length [ustr ''ab'', ustr ''c''] \<and>
   generate_embedding example_service EmbeddingGenerator ([ustr ''ab'', ustr ''c''] ! 0)
     TASK_TYPE_QUERY = Inr ([2, 1] ! 0) \<and>
   generate_embedding example_service EmbeddingGenerator ([ustr ''ab'', ustr ''c''] ! 1)
     TASK_TYPE_QUERY = Inr ([2, 1] ! 1) \<and>
   generate_batch_embeddings example_service EmbeddingGenerator [ustr ''ab'', []]
     TASK_TYPE_QUERY = Inl (Exception (ustr ''empty content'')) \<and>
   (\<exists>t\<in>set [ustr ''ab'', []].
      generate_embedding example_service EmbeddingGenerator t TASK_TYPE_QUERY
        = Inl (Exception (ustr ''empty content'')))"
proof -
  have ok: "generate_batch_embeddings example_service EmbeddingGenerator [ustr ''ab'', ustr ''c'']
     TASK_TYPE_QUERY = Inr [2, 1]"
    by (simp add: generate_batch_embeddings_def generate_embedding_def example_service_def
        ustr_def)
  have bad: "generate_batch_embeddings example_service EmbeddingGenerator [ustr ''ab'', []]
     TASK_TYPE_QUERY = Inl (Exception (ustr ''empty content''))"
    by (simp add: generate_batch_embeddings_def generate_embedding_def example_service_def
        ustr_def)
  from batch_embeddings_map_single[of example_service EmbeddingGenerator
      "[ustr ''ab'', ustr ''c'']" TASK_TYPE_QUERY]
    batch_embeddings_map_single[of example_service EmbeddingGenerator
      "[ustr ''ab'', []]" TASK_TYPE_QUERY] ok bad
  show ?thesis by auto
qed

section \<open>Claims about the boundary operations\<close>

text \<open>
  C9. If \<open>index_document\<close> fails before the storage step, because the file is missing, the
  converter raises, the extracted text has fewer than 50 characters after trimming, no chunk
  results, or the embedding service raises, then it returns an error string and the store is
  exactly the store before the call.
\<close>

theorem failed_ingestion_leaves_store:
  fixes env :: "'v env"
  assumes "\<not> path_exists env p \<or>
           (\<exists>e. convert env (path_absolute env p) = Inl e) \<or>
           (\<exists>t. convert env (path_absolute env p) = Inr t \<and>
              (length (strip t) < 50 \<or>
               chunk_text CHUNK_SIZE_CHARS CHUNK_OVERLAP_CHARS t (path_absolute env p) = Some [] \<or>
               (\<exists>chunks e.
                  chunk_text CHUNK_SIZE_CHARS CHUNK_OVERLAP_CHARS t (path_absolute env p) = Some chunks \<and>
                  generate_batch_embeddings (embed_content env) EmbeddingGenerator
                    (map text' chunks) TASK_TYPE_DOCUMENT = Inl e)))"
  shows "\<exists>s. index_document env p kb = Some (Inr s, kb) \<and> is_error_result s"
proof -
  let ?src = "path_absolute env p"
  from index_document_body_cases[of env p kb]
  consider
    (missing) "index_document_body env p kb =
              Some (Inr (ustr ''Error: File '' @ p @ ustr '' does not exist''), kb)"
  | (raised) e where "index_document_body env p kb = Some (Inl e, kb)"
  | (short) "index_document_body env p kb =
              Some (Inr (ustr ''Error: Could not extract meaningful text from '' @ p), kb)"
  | (nochunks) "index_document_body env p kb =
              Some (Inr (ustr ''Error: No chunks created from '' @ p), kb)"
  | (stored) t chunks embeddings where "path_exists env p" "convert env ?src = Inr t"
      "50 \<le> length (strip t)"
      "chunk_text CHUNK_SIZE_CHARS CHUNK_OVERLAP_CHARS t ?src = Some chunks" "chunks \<noteq> []"
      "generate_batch_embeddings (embed_content env) EmbeddingGenerator (map text' chunks)
              TASK_TYPE_DOCUMENT = Inr embeddings"
    by blast
  then show ?thesis
  proof cases
    case missing
    then show ?thesis by (simp add: index_document_def error_messages)
  next
    case raised
    then show ?thesis by (simp add: index_document_def error_messages)
  next
    case short
    then show ?thesis by (simp add: index_document_def error_messages)
  next
    case nochunks
    then show ?thesis by (simp add: index_document_def error_messages)
  next
    case stored
    with assms have False by auto
    then show ?thesis ..
  qed
qed

theorem failed_ingestion_leaves_store_witness:
  "\<not> path_exists example_env (ustr ''/docs/b.txt'') \<and>
   (\<exists>s. index_document example_env (ustr ''/docs/b.txt'') (Table example_rows)
          = Some (Inr s, Table example_rows) \<and> is_error_result s) \<and>
   (\<exists>chunks e.
      convert (example_env\<lparr>embed_content := (\<lambda>m c t d. Inl (Exception (ustr ''quota'')))\<rparr>)
        (ustr ''/docs/a.txt'') = Inr (replicate 2000 97) \<and>
      chunk_text CHUNK_SIZE_CHARS CHUNK_OVERLAP_CHARS (replicate 2000 97) (ustr ''/docs/a.txt'')
        = Some chunks \<and>
      generate_batch_embeddings (\<lambda>m c t d. Inl (Exception (ustr ''quota''))) EmbeddingGenerator
        (map text' chunks) TASK_TYPE_DOCUMENT = Inl e) \<and>
   (\<exists>s. index_document
          (example_env\<lparr>embed_content := (\<lambda>m c t d. Inl (Exception (ustr ''quota'')))\<rparr>)
          (ustr ''/docs/a.txt'') (Table example_rows)
          = Some (Inr s, Table example_rows) \<and> is_error_result s)"
proof -
  let ?env = "example_env\<lparr>embed_content := (\<lambda>m c t d. Inl (Exception (ustr ''quota'')))\<rparr>
                :: nat env"
  have a: "\<not> path_exists example_env (ustr ''/docs/b.txt'')"
    by (simp add: example_env_def ustr_def)
  have b: "\<exists>chunks e.
      convert ?env (ustr ''/docs/a.txt'') = Inr (replicate 2000 97) \<and>
      chunk_text CHUNK_SIZE_CHARS CHUNK_OVERLAP_CHARS (replicate 2000 97) (ustr ''/docs/a.txt'')
        = Some chunks \<and>
      generate_batch_embeddings (\<lambda>m c t d. Inl (Exception (ustr ''quota''))) EmbeddingGenerator
        (map text' chunks) TASK_TYPE_DOCUMENT = Inl e"
    by (simp add: ex_chunks example_env_def generate_batch_embeddings_def generate_embedding_def)
  have c: "path_absolute ?env (ustr ''/docs/a.txt'') = ustr ''/docs/a.txt''"
    "embed_content ?env = (\<lambda>m c t d. Inl (Exception (ustr ''quota'')))"
    by (simp_all add: example_env_def)
  from b c have h: "\<not> path_exists ?env (ustr ''/docs/a.txt'') \<or>
           (\<exists>e. convert ?env (path_absolute ?env (ustr ''/docs/a.txt'')) = Inl e) \<or>
           (\<exists>t. convert ?env (path_absolute ?env (ustr ''/docs/a.txt'')) = Inr t \<and>
              (length (strip t) < 50 \<or>
               chunk_text CHUNK_SIZE_CHARS CHUNK_OVERLAP_CHARS t
                 (path_absolute ?env (ustr ''/docs/a.txt'')) = Some [] \<or>
               (\<exists>chunks e.
                  chunk_text CHUNK_SIZE_CHARS CHUNK_OVERLAP_CHARS t
                    (path_absolute ?env (ustr ''/docs/a.txt'')) = Some chunks \<and>
                  generate_batch_embeddings (embed_content ?env) EmbeddingGenerator
                    (map text' chunks) TASK_TYPE_DOCUMENT = Inl e)))"
    by (simp only:) blast
  from a failed_ingestion_leaves_store[of example_env "ustr ''/docs/b.txt''" "Table example_rows"]
    b failed_ingestion_leaves_store[OF h, of "Table example_rows"]
  show ?thesis by blast
qed

text \<open>
  C6. Whatever the file system, the converter, the embedding service and the storage calls
  do, \<open>index_document\<close>, \<open>search_knowledge_base\<close> and \<open>get_indexed_documents\<close> each
  return a non-empty result string; no exception leaves them. The expected absences are
  not reported as errors: a store that was never created, for the search and for the
  inventory, a store without a table, for the inventory, and a search without matches.
\<close>

theorem boundary_operations_return_strings:
  fixes env :: "'v env"
  shows "(\<exists>s kb'. index_document env p kb = Some (Inr s, kb') \<and> s \<noteq> []) \<and>
         (\<exists>s. search_knowledge_base env q k kb = Inr s \<and> s \<noteq> []) \<and>
         (\<exists>s. get_indexed_documents env kb = Inr s \<and> s \<noteq> []) \<and>
         (\<exists>s. search_knowledge_base env q k Missing = Inr s \<and> \<not> is_error_result s) \<and>
         (\<exists>s. get_indexed_documents env Missing = Inr s \<and> \<not> is_error_result s) \<and>
         (fault env Connect = None \<longrightarrow>
            (\<exists>s. get_indexed_documents env NoTable = Inr s \<and> \<not> is_error_result s)) \<and>
         (\<forall>rows qe.
            generate_embedding (embed_content env) EmbeddingGenerator q TASK_TYPE_QUERY = Inr qe \<and>
            fault env Connect = None \<and> fault env OpenTable = None \<and> fault env Search = None \<and>
            vector_search env rows qe k = Inr [] \<longrightarrow>
            (\<exists>s. search_knowledge_base env q k (Table rows) = Inr s \<and> \<not> is_error_result s))"
proof (intro conjI allI impI)
  show "\<exists>s kb'. index_document env p kb = Some (Inr s, kb') \<and> s \<noteq> []"
    by (rule index_document_returns)
  show "\<exists>s. search_knowledge_base env q k kb = Inr s \<and> s \<noteq> []"
    by (rule search_knowledge_base_returns)
  show "\<exists>s. get_indexed_documents env kb = Inr s \<and> s \<noteq> []"
    by (rule get_indexed_documents_returns)
  show "\<exists>s. search_knowledge_base env q k Missing = Inr s \<and> \<not> is_error_result s"
    by (simp add: search_missing not_error_messages)
  show "\<exists>s. get_indexed_documents env Missing = Inr s \<and> \<not> is_error_result s"
    by (simp add: get_indexed_missing not_error_messages)
next
  assume "fault env Connect = None"
  then show "\<exists>s. get_indexed_documents env NoTable = Inr s \<and> \<not> is_error_result s"
    by (simp add: get_indexed_no_table not_error_messages)
next
  fix rows qe
  assume "generate_embedding (embed_content env) EmbeddingGenerator q TASK_TYPE_QUERY = Inr qe \<and>
            fault env Connect = None \<and> fault env OpenTable = None \<and> fault env Search = None \<and>
            vector_search env rows qe k = Inr []"
  then have "search_knowledge_base env q k (Table rows) =
           Inr (ustr ''No relevant information found for query: '' @ [39] @ q @ [39])"
    using search_no_matches[of env q qe rows k] by simp
  then show "\<exists>s. search_knowledge_base env q k (Table rows) = Inr s \<and> \<not> is_error_result s"
    by (simp add: not_error_messages)
qed

theorem boundary_operations_return_strings_witness:
  "fault example_env Connect = None \<and>
   (\<exists>s. get_indexed_documents example_env NoTable = Inr s \<and> \<not> is_error_result s) \<and>
   generate_embedding (embed_content example_env) EmbeddingGenerator (ustr ''q'') TASK_TYPE_QUERY
     = Inr 1 \<and>
   fault example_env OpenTable = None \<and> fault example_env Search = None \<and>
   vector_search example_env [] 1 5 = Inr [] \<and>
   (\<exists>s. search_knowledge_base example_env (ustr ''q'') 5 (Table []) = Inr s \<and>
        \<not> is_error_result s) \<and>
   (\<exists>s kb'. index_document example_env (ustr ''/docs/a.txt'') (Table []) = Some (Inr s, kb') \<and>
        s \<noteq> [])"
  using boundary_operations_return_strings[of example_env "ustr ''/docs/a.txt''" "Table []"
      "ustr ''q''" 5] ex_query ex_faults ex_search
  by blast

text \<open>
  C4. \<open>search_knowledge_base\<close> tells three outcomes apart. On a store that was never
  created it returns the message asking to index documents first. On an existing table,
  when the search ran and found nothing it returns the message that no relevant information
  was found, and when it found rows it returns the list of results, in the order of the
  search, each text cut to 500 characters. The three strings are pairwise different and
  none of them is an error string.
\<close>

theorem search_three_outcomes:
  fixes env :: "'v env"
  shows "search_knowledge_base env q k Missing =
           Inr (ustr ''Knowledge base not found. Please index some documents first using the index_document tool.'') \<and>
         (\<forall>rows qe results.
            generate_embedding (embed_content env) EmbeddingGenerator q TASK_TYPE_QUERY = Inr qe \<and>
            fault env Connect = None \<and> fault env OpenTable = None \<and> fault env Search = None \<and>
            vector_search env rows qe k = Inr results \<longrightarrow>
            (results = [] \<longrightarrow>
               search_knowledge_base env q k (Table rows) =
                 Inr (ustr ''No relevant information found for query: '' @ [39] @ q @ [39])) \<and>
            (results \<noteq> [] \<longrightarrow>
               search_knowledge_base env q k (Table rows) =
                 Inr (join [10]
                        ((ustr ''Found '' @ str_int (int (length results))
                            @ ustr '' relevant chunks for '' @ [39] @ q @ [39] @ ustr '':'' @ [10])
                         # format_results env 1 results)) \<and>
               subseq (map (\<lambda>r. take 500 (text' r)) results) (format_results env 1 results))) \<and>
         (\<forall>results.
            ustr ''Knowledge base not found. Please index some documents first using the index_document tool.''
              \<noteq> ustr ''No relevant information found for query: '' @ [39] @ q @ [39] \<and>
            ustr ''Knowledge base not found. Please index some documents first using the index_document tool.''
              \<noteq> join [10]
                        ((ustr ''Found '' @ str_int (int (length results))
                            @ ustr '' relevant chunks for '' @ [39] @ q @ [39] @ ustr '':'' @ [10])
                         # format_results env 1 results) \<and>
            ustr ''No relevant information found for query: '' @ [39] @ q @ [39]
              \<noteq> join [10]
                        ((ustr ''Found '' @ str_int (int (length results))
                            @ ustr '' relevant chunks for '' @ [39] @ q @ [39] @ ustr '':'' @ [10])
                         # format_results env 1 results) \<and>
            \<not> is_error_result (ustr ''Knowledge base not found. Please index some documents first using the index_document tool.'') \<and>
            \<not> is_error_result (ustr ''No relevant information found for query: '' @ [39] @ q @ [39]) \<and>
            \<not> is_error_result (join [10]
                        ((ustr ''Found '' @ str_int (int (length results))
                            @ ustr '' relevant chunks for '' @ [39] @ q @ [39] @ ustr '':'' @ [10])
                         # format_results env 1 results)))"
proof (intro conjI allI impI)
  show "search_knowledge_base env q k Missing =
           Inr (ustr ''Knowledge base not found. Please index some documents first using the index_document tool.'')"
    by (rule search_missing)
next
  fix rows qe results
  assume h: "generate_embedding (embed_content env) EmbeddingGenerator q TASK_TYPE_QUERY = Inr qe \<and>
            fault env Connect = None \<and> fault env OpenTable = None \<and> fault env Search = None \<and>
            vector_search env rows qe k = Inr results"
  {
    assume "results = []"
    with h show "search_knowledge_base env q k (Table rows) =
                 Inr (ustr ''No relevant information found for query: '' @ [39] @ q @ [39])"
      using search_no_matches[of env q qe rows k] by simp
  }
  {
    assume "results \<noteq> []"
    with h show "search_knowledge_base env q k (Table rows) =
                 Inr (join [10]
                        ((ustr ''Found '' @ str_int (int (length results))
                            @ ustr '' relevant chunks for '' @ [39] @ q @ [39] @ ustr '':'' @ [10])
                         # format_results env 1 results))"
      using search_matches[of env q qe rows k results] by simp
  }
  show "subseq (map (\<lambda>r. take 500 (text' r)) results) (format_results env 1 results)"
    by (rule subseq_format_results)
next
  fix results
  let ?found = "join [10]
                        ((ustr ''Found '' @ str_int (int (length results))
                            @ ustr '' relevant chunks for '' @ [39] @ q @ [39] @ ustr '':'' @ [10])
                         # format_results env 1 results)"
  let ?nf = "ustr ''Knowledge base not found. Please index some documents first using the index_document tool.''"
  let ?nr = "ustr ''No relevant information found for query: '' @ [39] @ q @ [39]"
  have f: "hd ?found = 70" by (rule hd_found)
  have n: "hd ?nf = 75" by (rule hd_notfound)
  have r: "hd ?nr = 78" by (rule hd_norelevant)
  show "?nf \<noteq> ?nr" using n r by auto
  show "?nf \<noteq> ?found" using n f by auto
  show "?nr \<noteq> ?found" using r f by auto
  show "\<not> is_error_result ?nf" by (rule not_error_messages)
  show "\<not> is_error_result ?nr" by (rule not_error_messages)
  show "\<not> is_error_result ?found" by (rule not_error_found)
qed


theorem search_three_outcomes_witness:
  "generate_embedding (embed_content example_env) EmbeddingGenerator (ustr ''q'') TASK_TYPE_QUERY
     = Inr 1 \<and>
   fault example_env Connect = None \<and> fault example_env OpenTable = None \<and>
   fault example_env Search = None \<and>
   vector_search example_env [] 1 5 = Inr [] \<and>
   search_knowledge_base example_env (ustr ''q'') 5 (Table []) =
     Inr (ustr ''No relevant information found for query: '' @ [39] @ ustr ''q'' @ [39]) \<and>
   vector_search example_env example_rows 1 5 = Inr example_rows \<and> example_rows \<noteq> [] \<and>
   search_knowledge_base example_env (ustr ''q'') 5 (Table example_rows) =
     Inr (join [10]
            ((ustr ''Found '' @ str_int (int (length example_rows))
                @ ustr '' relevant chunks for '' @ [39] @ ustr ''q'' @ [39] @ ustr '':'' @ [10])
             # format_results example_env 1 example_rows))"
proof -
  have ne: "example_rows \<noteq> []" by (simp add: example_rows_def)
  from search_three_outcomes[of example_env "ustr ''q''" 5] ex_query ex_faults ex_search ne
  show ?thesis by blast
qed

text \<open>
  C5. When \<open>index_document\<close> succeeds twice in a row on one path, the second call appends
  a second copy of the same rows: nothing is deduplicated. If the store held no row of that
  source before the first call, the number of rows of the source after the second call, which
  is the count that \<open>get_indexed_documents\<close> prints for it, is twice the number after the first.
\<close>

theorem double_ingestion_doubles_count:
  fixes env :: "'v env"
  assumes first: "index_document env p kb = Some (Inr m1, kb1)" and ok1: "ingest_ok m1"
    and second: "index_document env p kb1 = Some (Inr m2, kb2)" and ok2: "ingest_ok m2"
  shows "\<exists>data. data \<noteq> [] \<and> (\<forall>r\<in>set data. source r = path_absolute env p) \<and>
           kb1 = Table (rows_of kb @ data) \<and> kb2 = Table (rows_of kb @ data @ data) \<and>
           (doc_chunks (rows_of kb) (path_absolute env p) = [] \<longrightarrow>
              length (doc_chunks (rows_of kb1) (path_absolute env p)) = length data \<and>
              length (doc_chunks (rows_of kb2) (path_absolute env p)) =
                2 * length (doc_chunks (rows_of kb1) (path_absolute env p)) \<and>
              (fault env Connect = None \<and> fault env OpenTable = None \<and>
               fault env ToPandas = None \<longrightarrow>
                 get_indexed_documents env kb1 = Inr (join [10] (summary_lines env (rows_of kb1))) \<and>
                 ustr ''  '' @ [8226] @ ustr '' '' @ path_name env (path_absolute env p) @ ustr '' (''
                     @ str_int (int (length data)) @ ustr '' chunks)''
                   \<in> set (summary_lines env (rows_of kb1)) \<and>
                 get_indexed_documents env kb2 = Inr (join [10] (summary_lines env (rows_of kb2))) \<and>
                 ustr ''  '' @ [8226] @ ustr '' '' @ path_name env (path_absolute env p) @ ustr '' (''
                     @ str_int (int (2 * length data)) @ ustr '' chunks)''
                   \<in> set (summary_lines env (rows_of kb2))))"
proof -
  let ?src = "path_absolute env p"
  from index_document_success[OF first ok1] obtain t chunks embeddings where
    conv: "convert env ?src = Inr t"
    and ch: "chunk_text CHUNK_SIZE_CHARS CHUNK_OVERLAP_CHARS t ?src = Some chunks"
    and ne: "chunks \<noteq> []"
    and emb: "generate_batch_embeddings (embed_content env) EmbeddingGenerator (map text' chunks)
             TASK_TYPE_DOCUMENT = Inr embeddings"
    and kb1: "kb1 = Table (rows_of kb @ data_for_db chunks embeddings)"
    by blast
  from index_document_success[OF second ok2] obtain t' chunks' embeddings' where
    conv': "convert env ?src = Inr t'"
    and ch': "chunk_text CHUNK_SIZE_CHARS CHUNK_OVERLAP_CHARS t' ?src = Some chunks'"
    and emb': "generate_batch_embeddings (embed_content env) EmbeddingGenerator (map text' chunks')
             TASK_TYPE_DOCUMENT = Inr embeddings'"
    and kb2: "kb2 = Table (rows_of kb1 @ data_for_db chunks' embeddings')"
    by blast
  from conv conv' have "t' = t" by simp
  with ch ch' have c': "chunks' = chunks" by simp
  with emb emb' have e': "embeddings' = embeddings" by simp
  define data where "data = data_for_db chunks embeddings"
  have len: "length data = length chunks"
    unfolding data_def using length_batch_embeddings[OF emb] by (simp add: length_data_for_db)
  with ne have dne: "data \<noteq> []" by auto
  have src: "\<forall>r\<in>set data. source r = ?src"
    unfolding data_def by (rule source_data_for_db[OF chunk_text_source[OF ch]])
  have k1: "kb1 = Table (rows_of kb @ data)" using kb1 by (simp add: data_def)
  have k2: "kb2 = Table (rows_of kb @ data @ data)"
    using kb2 c' e' k1 by (simp add: data_def rows_of_Table)
  have rest: "doc_chunks (rows_of kb) ?src = [] \<longrightarrow>
              length (doc_chunks (rows_of kb1) ?src) = length data \<and>
              length (doc_chunks (rows_of kb2) ?src) = 2 * length (doc_chunks (rows_of kb1) ?src) \<and>
              (fault env Connect = None \<and> fault env OpenTable = None \<and>
               fault env ToPandas = None \<longrightarrow>
                 get_indexed_documents env kb1 = Inr (join [10] (summary_lines env (rows_of kb1))) \<and>
                 ustr ''  '' @ [8226] @ ustr '' '' @ path_name env ?src @ ustr '' (''
                     @ str_int (int (length data)) @ ustr '' chunks)''
                   \<in> set (summary_lines env (rows_of kb1)) \<and>
                 get_indexed_documents env kb2 = Inr (join [10] (summary_lines env (rows_of kb2))) \<and>
                 ustr ''  '' @ [8226] @ ustr '' '' @ path_name env ?src @ ustr '' (''
                     @ str_int (int (2 * length data)) @ ustr '' chunks)''
                   \<in> set (summary_lines env (rows_of kb2)))"
  proof (intro impI)
    assume fresh: "doc_chunks (rows_of kb) ?src = []"
    have d1: "doc_chunks (rows_of kb1) ?src = data"
      using fresh by (simp add: k1 rows_of_Table doc_chunks_append doc_chunks_all[OF src])
    have d2: "doc_chunks (rows_of kb2) ?src = data @ data"
      using fresh by (simp add: k2 rows_of_Table doc_chunks_append doc_chunks_all[OF src])
    have n1: "length (doc_chunks (rows_of kb1) ?src) = length data" using d1 by simp
    have n2: "length (doc_chunks (rows_of kb2) ?src) = 2 * length (doc_chunks (rows_of kb1) ?src)"
      using d1 d2 by simp
    obtain r where r: "r \<in> set data" using dne by (cases data) auto
    with src have sr: "source r = ?src" by simp
    have in1: "?src \<in> source ` set (rows_of kb1)"
      using r sr by (auto simp: k1 rows_of_Table intro!: image_eqI[of _ _ r])
    have in2: "?src \<in> source ` set (rows_of kb2)"
      using r sr by (auto simp: k2 rows_of_Table intro!: image_eqI[of _ _ r])
    have l1: "ustr ''  '' @ [8226] @ ustr '' '' @ path_name env ?src @ ustr '' (''
                     @ str_int (int (length data)) @ ustr '' chunks)''
                   \<in> set (summary_lines env (rows_of kb1))"
      using summary_line_present[OF in1, of env] by (simp only: n1)
    have l2: "ustr ''  '' @ [8226] @ ustr '' '' @ path_name env ?src @ ustr '' (''
                     @ str_int (int (2 * length data)) @ ustr '' chunks)''
                   \<in> set (summary_lines env (rows_of kb2))"
      using summary_line_present[OF in2, of env] by (simp only: n2 n1)
    have g: "fault env Connect = None \<and> fault env OpenTable = None \<and>
               fault env ToPandas = None \<longrightarrow>
                 get_indexed_documents env kb1 = Inr (join [10] (summary_lines env (rows_of kb1))) \<and>
                 get_indexed_documents env kb2 = Inr (join [10] (summary_lines env (rows_of kb2)))"
      by (simp add: k1 k2 rows_of_Table get_indexed_table)
    from n1 n2 l1 l2 g
    show "length (doc_chunks (rows_of kb1) ?src) = length data \<and>
              length (doc_chunks (rows_of kb2) ?src) = 2 * length (doc_chunks (rows_of kb1) ?src) \<and>
              (fault env Connect = None \<and> fault env OpenTable = None \<and>
               fault env ToPandas = None \<longrightarrow>
                 get_indexed_documents env kb1 = Inr (join [10] (summary_lines env (rows_of kb1))) \<and>
                 ustr ''  '' @ [8226] @ ustr '' '' @ path_name env ?src @ ustr '' (''
                     @ str_int (int (length data)) @ ustr '' chunks)''
                   \<in> set (summary_lines env (rows_of kb1)) \<and>
                 get_indexed_documents env kb2 = Inr (join [10] (summary_lines env (rows_of kb2))) \<and>
                 ustr ''  '' @ [8226] @ ustr '' '' @ path_name env ?src @ ustr '' (''
                     @ str_int (int (2 * length data)) @ ustr '' chunks)''
                   \<in> set (summary_lines env (rows_of kb2)))"
      by blast
  qed
  from dne src k1 k2 rest show ?thesis by blast
qed

theorem double_ingestion_doubles_count_witness:
  "index_document example_env (ustr ''/docs/a.txt'') Missing =
     Some (Inr (ustr ''Successfully indexed a.txt: 2 chunks created and embedded''),
           Table example_rows) \<and>
   ingest_ok (ustr ''Successfully indexed a.txt: 2 chunks created and embedded'') \<and>
   index_document example_env (ustr ''/docs/a.txt'') (Table example_rows) =
     Some (Inr (ustr ''Successfully indexed a.txt: 2 chunks created and embedded''),
           Table (example_rows @ example_rows)) \<and>
   doc_chunks (rows_of Missing) (path_absolute example_env (ustr ''/docs/a.txt'')) = [] \<and>
   length (doc_chunks (rows_of (Table (example_rows @ example_rows)))
             (path_absolute example_env (ustr ''/docs/a.txt''))) =
     2 * length (doc_chunks (rows_of (Table example_rows))
                   (path_absolute example_env (ustr ''/docs/a.txt'')))"
proof -
  have fresh: "doc_chunks (rows_of Missing) (path_absolute example_env (ustr ''/docs/a.txt'')) = []"
    by (simp add: rows_of_def doc_chunks_def)
  have "length (doc_chunks (rows_of (Table (example_rows @ example_rows)))
             (path_absolute example_env (ustr ''/docs/a.txt''))) =
     2 * length (doc_chunks (rows_of (Table example_rows))
                   (path_absolute example_env (ustr ''/docs/a.txt'')))"
    using double_ingestion_doubles_count[OF ex_index1 ex_ok ex_index2 ex_ok] fresh
    apply (elim exE conjE)
    apply (erule impE)
     apply assumption
    apply (elim conjE)
    apply assumption
    done
  with fresh ex_index1 ex_ok ex_index2 show ?thesis by (intro conjI)
qed

end
